theory Spec2Isabelle
  imports Main "HOL-Library.Sublist"
begin

section \<open>The receipt automation script as a program over an explicit browser\<close>

text \<open>
  The script \<^verbatim>\<open>backend/smokeball_receipt_automation.py\<close> drives a browser. Every call
  that leaves the process (a page operation, a sleep, a read of the console, the creation
  of the screenshots directory) is an \<open>action\<close>; what the outside answers is given by a
  \<open>world\<close>, a family of functions from the history of the run so far to the answer. A run
  threads a \<open>session\<close> (the fields of the Python object, the world and the history) through
  the statements, and every statement yields a \<open>flow\<close>: it completes, it executes a
  \<^verbatim>\<open>return\<close> of the enclosing function, or it raises.

  Python separates exceptions under \<^verbatim>\<open>Exception\<close>, caught by
  \<^verbatim>\<open>except Exception\<close>, from those only under \<^verbatim>\<open>BaseException\<close>
  (\<^verbatim>\<open>KeyboardInterrupt\<close>, \<^verbatim>\<open>asyncio.CancelledError\<close>), which only a bare
  \<^verbatim>\<open>except:\<close> and \<^verbatim>\<open>finally\<close> see. The first kind carries \<^verbatim>\<open>str(e)\<close>.
\<close>

datatype exn = Exception string | Interrupt

datatype locator =
    Css string
  | Role string string bool
  | ByText string bool
  | HasText locator string
  | First locator
  | Sub locator string
  | SubText locator string bool
  | Item locator nat

datatype action =
    Mkdir string
  | StartPlaywright
  | Launch
  | NewPage
  | SetViewport nat nat
  | SetHeaders
  | CloseBrowser
  | Goto string string
  | WaitForSelector string nat
  | WaitForLoadState string nat
  | WaitForUrl string nat
  | IsVisible locator nat
  | IsEnabled locator
  | Click locator
  | Fill locator string
  | Clear locator
  | Press locator string
  | TextContent locator
  | GetAttribute locator string
  | AllOf locator
  | Sleep nat
  | Screenshot string
  | Input string

record receipt_data =
  amount :: string
  date :: string
  lastname :: string
  firstname :: string
  reason :: string
  description :: string
  type :: string

record session_result =
  success :: bool
  error :: "string option"
  message :: string

datatype event =
    Did action
  | Failed action exn
  | Print string
  | PrintData string receipt_data
  | PrintFinal session_result
  | PrintTraceback exn

text \<open>
  Sleeps are in milliseconds. The float amount is carried as its \<^verbatim>\<open>str()\<close> rendering,
  the only way the form filling uses it. Console lines are recorded without the pictograph
  that opens most of them; a line that prints a whole dictionary is recorded with the
  value itself (\<open>PrintData\<close>, \<open>PrintFinal\<close>).
\<close>

record world =
  effect :: "event list \<Rightarrow> action \<Rightarrow> exn option"
  truth :: "event list \<Rightarrow> action \<Rightarrow> exn + bool"
  text_of :: "event list \<Rightarrow> action \<Rightarrow> exn + string option"
  count :: "event list \<Rightarrow> action \<Rightarrow> exn + nat"
  line :: "event list \<Rightarrow> action \<Rightarrow> exn + string"
  url :: "event list \<Rightarrow> string"
  stamp :: "event list \<Rightarrow> string"
  clock :: "event list \<Rightarrow> nat"
  digest :: "string \<Rightarrow> nat \<Rightarrow> nat"
  playwright_installed :: bool
  pyotp_installed :: bool

record credentials =
  username :: string
  password :: string
  two_factor_secret :: "string option"

record session =
  browser :: bool
  page :: bool
  test_mode :: bool
  creds :: credentials
  world :: world
  trace :: "event list"

datatype 'a flow = Norm 'a | Return | Raise exn

type_synonym 'a prog = "session \<Rightarrow> 'a flow \<times> session"

subsection \<open>Statements\<close>

definition pure :: "'a \<Rightarrow> 'a prog" where
  "pure a s = (Norm a, s)"

definition raise :: "exn \<Rightarrow> 'a prog" where
  "raise e s = (Raise e, s)"

definition ret :: "'a prog" where
  "ret s = (Return, s)"

definition bind :: "'a prog \<Rightarrow> ('a \<Rightarrow> 'b prog) \<Rightarrow> 'b prog" where
  "bind m f s =
     (case m s of
        (Norm a, s') \<Rightarrow> f a s'
      | (Return, s') \<Rightarrow> (Return, s')
      | (Raise e, s') \<Rightarrow> (Raise e, s'))"

fun block :: "unit prog list \<Rightarrow> unit prog" where
  "block [] = pure ()"
| "block (m # ms) = bind m (\<lambda>_. block ms)"

definition discard :: "'a prog \<Rightarrow> unit prog" where
  "discard m = bind m (\<lambda>_. pure ())"

text \<open>\<^verbatim>\<open>try: m except Exception as e: h(str(e))\<close>\<close>

definition try_except :: "'a prog \<Rightarrow> (string \<Rightarrow> 'a prog) \<Rightarrow> 'a prog" where
  "try_except m h s =
     (case m s of
        (Raise (Exception msg), s') \<Rightarrow> h msg s'
      | other \<Rightarrow> other)"

text \<open>\<^verbatim>\<open>try: m except: h\<close>\<close>

definition try_bare :: "'a prog \<Rightarrow> 'a prog \<Rightarrow> 'a prog" where
  "try_bare m h s =
     (case m s of
        (Raise e, s') \<Rightarrow> h s'
      | other \<Rightarrow> other)"

text \<open>
  \<^verbatim>\<open>try: m finally: f\<close>: when the final block completes the outcome of \<open>m\<close> resumes; when
  it raises, its exception replaces that outcome.
\<close>

definition try_finally :: "'a prog \<Rightarrow> unit prog \<Rightarrow> 'a prog" where
  "try_finally m f s =
     (case m s of (r, s1) \<Rightarrow>
        (case f s1 of
           (Norm u, s2) \<Rightarrow> (r, s2)
         | (Return, s2) \<Rightarrow> (Return, s2)
         | (Raise e, s2) \<Rightarrow> (Raise e, s2)))"

text \<open>The boundary of a function whose body uses \<^verbatim>\<open>return\<close> with no value.\<close>

definition call :: "unit prog \<Rightarrow> unit prog" where
  "call m s =
     (case m s of
        (Return, s') \<Rightarrow> (Norm (), s')
      | other \<Rightarrow> other)"

definition log :: "event \<Rightarrow> session \<Rightarrow> session" where
  "log e s = s\<lparr>trace := trace s @ [e]\<rparr>"

definition print :: "string \<Rightarrow> unit prog" where
  "print msg s = (Norm (), log (Print msg) s)"

definition perform :: "action \<Rightarrow> unit prog" where
  "perform a s =
     (case effect (world s) (trace s) a of
        None \<Rightarrow> (Norm (), log (Did a) s)
      | Some e \<Rightarrow> (Raise e, log (Failed a e) s))"

definition answer :: "(world \<Rightarrow> event list \<Rightarrow> action \<Rightarrow> exn + 'a) \<Rightarrow> action \<Rightarrow> 'a prog" where
  "answer oracle a s =
     (case oracle (world s) (trace s) a of
        Inr v \<Rightarrow> (Norm v, log (Did a) s)
      | Inl e \<Rightarrow> (Raise e, log (Failed a e) s))"

definition sleep :: "nat \<Rightarrow> unit prog" where
  "sleep ms = perform (Sleep ms)"

text \<open>
  An attribute access on \<^verbatim>\<open>self.page\<close> while it is still \<^verbatim>\<open>None\<close> raises
  \<^verbatim>\<open>AttributeError\<close> before anything reaches the browser.
\<close>

definition no_attribute :: "string \<Rightarrow> string" where
  "no_attribute a = ''NoneType object has no attribute '' @ a"

definition on_page :: "string \<Rightarrow> 'a prog \<Rightarrow> 'a prog" where
  "on_page attr m s = (if page s then m s else (Raise (Exception (no_attribute attr)), s))"

subsection \<open>Strings\<close>

definition lower_char :: "char \<Rightarrow> char" where
  "lower_char c =
     (case map_of (zip ''ABCDEFGHIJKLMNOPQRSTUVWXYZ'' ''abcdefghijklmnopqrstuvwxyz'') c of
        None \<Rightarrow> c
      | Some l \<Rightarrow> l)"

definition lower :: "string \<Rightarrow> string" where
  "lower = map lower_char"

fun contains :: "string \<Rightarrow> string \<Rightarrow> bool" where
  "contains sub [] = (sub = [])"
| "contains sub (c # cs) = (prefix sub (c # cs) \<or> contains sub cs)"

definition digit_char :: "nat \<Rightarrow> char" where
  "digit_char d = ''0123456789'' ! (d mod 10)"

definition is_digit :: "char \<Rightarrow> bool" where
  "is_digit c \<longleftrightarrow> c \<in> set ''0123456789''"

subsection \<open>The one-time-password library\<close>

text \<open>
  Modelled from the spec: the library behind \<^verbatim>\<open>pyotp.TOTP(secret).now()\<close> is imported
  by the script and is not part of the repository. The spec (4.1) gives its contract: the
  secret must be a non-empty base32 string, otherwise the call fails with
  \<^verbatim>\<open>InvalidSecret\<close>; the code has six digits and is a function of the secret and of the
  30-second window the current time falls in. The keyed hash that the standard algorithm
  applies to the secret and the window number is the \<open>digest\<close> of the world.
\<close>

definition base32_char :: "char \<Rightarrow> bool" where
  "base32_char c \<longleftrightarrow> c \<in> set ''ABCDEFGHIJKLMNOPQRSTUVWXYZ234567''"

definition valid_secret :: "string \<Rightarrow> bool" where
  "valid_secret k \<longleftrightarrow> k \<noteq> [] \<and> list_all base32_char k"

definition six_digits :: "nat \<Rightarrow> string" where
  "six_digits n = map (\<lambda>i. digit_char (n div 10 ^ i)) [5, 4, 3, 2, 1, 0]"

definition totp_now :: "(string \<Rightarrow> nat \<Rightarrow> nat) \<Rightarrow> string \<Rightarrow> nat \<Rightarrow> exn + string" where
  "totp_now h k t =
     (if valid_secret k then Inr (six_digits (h k (t div 30) mod 1000000))
      else Inl (Exception ''InvalidSecret''))"

subsection \<open>\<^verbatim>\<open>SmokeBallReceiptAutomation.__init__\<close> and \<^verbatim>\<open>generate_totp_code\<close>\<close>

definition default_username :: string where
  "default_username = ''pmanocha@stanford.au''"

definition default_password :: string where
  "default_password = ''LegalxManocha25!''"

definition getenv :: "(string \<rightharpoonup> string) \<Rightarrow> string \<Rightarrow> string \<Rightarrow> string" where
  "getenv env k d = (case env k of None \<Rightarrow> d | Some v \<Rightarrow> v)"

definition new_session :: "world \<Rightarrow> (string \<rightharpoonup> string) \<Rightarrow> bool \<Rightarrow> event list \<Rightarrow> session" where
  "new_session w env tm tr =
     \<lparr>browser = False, page = False, test_mode = tm,
      creds = \<lparr>username = getenv env ''SMOKEBALL_USERNAME'' default_username,
               password = getenv env ''SMOKEBALL_PASSWORD'' default_password,
               two_factor_secret = env ''SMOKEBALL_2FA_SECRET''\<rparr>,
      world = w, trace = tr\<rparr>"

text \<open>
  The constructor sets the fields and creates the screenshots directory; \<open>tr\<close> is what the
  process has done before it is called.
\<close>

definition init :: "world \<Rightarrow> (string \<rightharpoonup> string) \<Rightarrow> bool \<Rightarrow> event list \<Rightarrow> unit flow \<times> session" where
  "init w env tm tr = perform (Mkdir ''screenshots'') (new_session w env tm tr)"

definition not_configured :: string where
  "not_configured = ''2FA secret not configured or pyotp not installed''"

definition generate_totp_code :: "string prog" where
  "generate_totp_code s =
     (case two_factor_secret (creds s) of
        None \<Rightarrow> raise (Exception not_configured) s
      | Some k \<Rightarrow>
          if k = [] \<or> \<not> pyotp_installed (world s) then raise (Exception not_configured) s
          else (case totp_now (digest (world s)) k (clock (world s) (trace s)) of
                  Inl e \<Rightarrow> raise e s
                | Inr code \<Rightarrow> bind (print (''Generated 2FA code: '' @ code)) (\<lambda>_. pure code) s))"

subsection \<open>\<^verbatim>\<open>take_screenshot\<close>, \<^verbatim>\<open>initialize\<close>, \<^verbatim>\<open>cleanup\<close>\<close>

text \<open>
  \<open>stamp\<close> is \<^verbatim>\<open>datetime.now().strftime('%Y%m%d-%H%M%S')\<close>. The method catches every
  \<^verbatim>\<open>Exception\<close> itself and returns the file name or \<^verbatim>\<open>None\<close>.
\<close>

definition screenshot_file :: "string \<Rightarrow> string \<Rightarrow> string" where
  "screenshot_file name ts = ''screenshots/receipt-'' @ name @ ''-'' @ ts @ ''.png''"

definition take_screenshot :: "string \<Rightarrow> string option prog" where
  "take_screenshot name =
     try_except
       (\<lambda>s. bind (on_page ''screenshot''
                    (perform (Screenshot (screenshot_file name (stamp (world s) (trace s))))))
               (\<lambda>_. bind (print (''Screenshot saved: ''
                                    @ screenshot_file name (stamp (world s) (trace s))))
               (\<lambda>_. pure (Some (screenshot_file name (stamp (world s) (trace s)))))) s)
       (\<lambda>e. bind (print (''Failed to take screenshot: '' @ e)) (\<lambda>_. pure None))"

definition shot :: "string \<Rightarrow> unit prog" where
  "shot name = discard (take_screenshot name)"

definition set_browser :: "unit prog" where
  "set_browser s = (Norm (), s\<lparr>browser := True\<rparr>)"

definition set_page :: "unit prog" where
  "set_page s = (Norm (), s\<lparr>page := True\<rparr>)"

definition initialize :: "unit prog" where
  "initialize =
     block [
       print ''Initializing browser...'',
       perform StartPlaywright,
       perform Launch,
       set_browser,
       perform NewPage,
       set_page,
       perform (SetViewport 1920 1080),
       perform SetHeaders,
       print ''Browser initialized'']"

definition cleanup :: "unit prog" where
  "cleanup s =
     (if browser s then block [perform CloseBrowser, print ''Browser closed''] s
      else pure () s)"

subsection \<open>\<^verbatim>\<open>fill_receipt_form\<close>: the seven strategies for the deposit control\<close>

function show_nat :: "nat \<Rightarrow> string" where
  "show_nat n = (if n < 10 then [digit_char n] else show_nat (n div 10) @ [digit_char n])"
  by pat_completeness auto
termination
  by (relation "measure id") auto

declare show_nat.simps [simp del]

definition str_opt :: "string option \<Rightarrow> string" where
  "str_opt t = (case t of None \<Rightarrow> ''None'' | Some x \<Rightarrow> x)"

definition str_bool :: "bool \<Rightarrow> string" where
  "str_bool b = (if b then ''True'' else ''False'')"

text \<open>\<^verbatim>\<open>text and 'deposit' in text.lower()\<close>\<close>

definition mentions_deposit :: "string option \<Rightarrow> bool" where
  "mentions_deposit t =
     (case t of None \<Rightarrow> False | Some x \<Rightarrow> x \<noteq> [] \<and> contains ''deposit'' (lower x))"

definition elements :: "locator \<Rightarrow> nat \<Rightarrow> locator list" where
  "elements l n = map (Item l) [0..<n]"

text \<open>The four statements every strategy ends with once it has its element.\<close>

definition click_and_return :: "locator \<Rightarrow> unit prog" where
  "click_and_return l =
     block [perform (Click l), sleep 2000, shot ''deposit-dialog-opened'', ret]"

definition create_new_button :: locator where
  "create_new_button = Role ''button'' ''Create New'' False"

definition menu_deposit :: locator where
  "menu_deposit = Role ''menuitem'' ''Deposit Funds'' False"

definition menu_items :: locator where
  \<open>menu_items = Css ''[role="menuitem"], [role="option"], li, a''\<close>

definition menu_item_body :: "locator \<Rightarrow> unit prog" where
  \<open>menu_item_body item =
     bind (answer text_of (TextContent item)) (\<lambda>t.
       if mentions_deposit t
       then bind (print (''Found deposit option: "'' @ str_opt t @ ''"''))
              (\<lambda>_. click_and_return item)
       else pure ())\<close>

fun menu_loop :: "locator list \<Rightarrow> unit prog" where
  "menu_loop [] = pure ()"
| "menu_loop (item # rest) =
     bind (try_bare (menu_item_body item) (pure ())) (\<lambda>_. menu_loop rest)"

definition strategy1 :: "unit prog" where
  \<open>strategy1 =
     try_except
       (on_page ''get_by_role''
         (bind (answer truth (IsVisible create_new_button 5000)) (\<lambda>vis.
            if vis then
              block [
                print ''Found "Create New" button, clicking to open menu...'',
                perform (Click create_new_button),
                sleep 2000,
                shot ''create-new-menu-opened'',
                try_bare
                  (bind (answer truth (IsVisible menu_deposit 3000)) (\<lambda>vis2.
                     if vis2 then
                       bind (print ''Found "Deposit Funds" in menu'')
                         (\<lambda>_. click_and_return menu_deposit)
                     else pure ()))
                  (bind (answer count (AllOf menu_items)) (\<lambda>n.
                     menu_loop (elements menu_items n)))]
            else pure ())))
       (\<lambda>e. print (''Strategy 1 (Create New menu) failed: '' @ e))\<close>

text \<open>Strategies 2, 3, 4, 6 and 7 differ in the locator and in two console lines.\<close>

definition visible_strategy :: "locator \<Rightarrow> string \<Rightarrow> string \<Rightarrow> string \<Rightarrow> unit prog" where
  "visible_strategy l attr found failed =
     try_except
       (on_page attr
         (bind (answer truth (IsVisible l 5000)) (\<lambda>vis.
            if vis then bind (print found) (\<lambda>_. click_and_return l) else pure ())))
       (\<lambda>e. print (failed @ e))"

definition deposit_exact :: locator where
  "deposit_exact = Role ''button'' ''Deposit Funds'' True"

definition deposit_inexact :: locator where
  "deposit_inexact = Role ''button'' ''Deposit Funds'' False"

definition deposit_text :: locator where
  "deposit_text = First (HasText (Css ''button'') ''Deposit'')"

definition all_buttons :: locator where
  \<open>all_buttons = Css ''button, [role="button"]''\<close>

definition deposit_aria :: locator where
  \<open>deposit_aria =
     First (Css ''button[aria-label*="Deposit"], button[title*="Deposit"], [aria-label*="Deposit"]'')\<close>

definition deposit_data :: locator where
  \<open>deposit_data =
     First (Css ''[data-testid*="deposit"], [class*="deposit"], [id*="deposit"]'')\<close>

definition strategy2 :: "unit prog" where
  "strategy2 = visible_strategy deposit_exact ''get_by_role''
     ''Found button with exact name match'' ''Strategy 2 failed: ''"

definition strategy3 :: "unit prog" where
  "strategy3 = visible_strategy deposit_inexact ''get_by_role''
     ''Found button with case-insensitive match'' ''Strategy 3 failed: ''"

definition strategy4 :: "unit prog" where
  \<open>strategy4 = visible_strategy deposit_text ''locator''
     ''Found button containing "Deposit" text'' ''Strategy 4 failed: ''\<close>

definition button_body :: "nat \<Rightarrow> locator \<Rightarrow> unit prog" where
  \<open>button_body i button =
     bind (answer text_of (TextContent button)) (\<lambda>t.
       bind (print (''   Button '' @ show_nat (i + 1) @ '': "'' @ str_opt t @ ''"'')) (\<lambda>_.
         if mentions_deposit t
         then bind (print (''Found deposit button at index '' @ show_nat (i + 1)
                             @ '': "'' @ str_opt t @ ''"''))
                (\<lambda>_. click_and_return button)
         else pure ()))\<close>

fun button_loop :: "nat \<Rightarrow> locator list \<Rightarrow> unit prog" where
  "button_loop i [] = pure ()"
| "button_loop i (button # rest) =
     bind (try_bare (button_body i button) (pure ())) (\<lambda>_. button_loop (i + 1) rest)"

definition strategy5 :: "unit prog" where
  "strategy5 =
     try_except
       (on_page ''locator''
         (bind (answer count (AllOf all_buttons)) (\<lambda>n.
            bind (print (''Found '' @ show_nat n @ '' buttons on page''))
              (\<lambda>_. button_loop 0 (elements all_buttons n)))))
       (\<lambda>e. print (''Strategy 5 failed: '' @ e))"

definition strategy6 :: "unit prog" where
  "strategy6 = visible_strategy deposit_aria ''locator''
     ''Found button by aria-label/title'' ''Strategy 6 failed: ''"

definition strategy7 :: "unit prog" where
  "strategy7 = visible_strategy deposit_data ''locator''
     ''Found button by data attributes'' ''Strategy 7 failed: ''"

definition strategies :: "unit prog list" where
  "strategies = [strategy1, strategy2, strategy3, strategy4, strategy5, strategy6, strategy7]"

definition not_found :: string where
  \<open>not_found = ''Could not find "Deposit Funds" button after trying all strategies''\<close>

subsection \<open>\<^verbatim>\<open>fill_receipt_form\<close>: the statements for the fields and the submission\<close>

text \<open>
  The fallbacks of the field blocks call \<^verbatim>\<open>locator(...).all()\<close> without
  \<^verbatim>\<open>await\<close>. The value is then a coroutine object: it is truthy, and indexing or
  slicing it raises \<^verbatim>\<open>TypeError\<close>, which the enclosing \<^verbatim>\<open>except Exception\<close> prints.
  (Messages of the interpreter are recorded without their quotation marks.)
\<close>

definition not_subscriptable :: string where
  "not_subscriptable = ''coroutine object is not subscriptable''"

definition unawaited_all :: "unit prog" where
  "unawaited_all = on_page ''locator'' (raise (Exception not_subscriptable))"

definition near_label :: "string \<Rightarrow> string \<Rightarrow> locator" where
  "near_label label sel = First (Sub (Sub (ByText label False) ''..'') sel)"

definition text_inputs :: string where
  \<open>text_inputs = ''input[type="text"], textbox''\<close>

definition date_input :: locator where
  "date_input = near_label ''Date Deposited'' text_inputs"

definition fill_date :: "receipt_data \<Rightarrow> unit prog" where
  "fill_date d =
     block [
       print (''Filling date: '' @ date d),
       try_except
         (on_page ''get_by_text''
           (block [
              perform (Click date_input),
              perform (Fill date_input (date d)),
              sleep 500,
              print ''Date filled'']))
         (\<lambda>e. block [
            print (''Could not fill date field with label method: '' @ e),
            try_except unawaited_all (\<lambda>e2. print (''Failed to fill date: '' @ e2))])]"

definition contact_name :: "receipt_data \<Rightarrow> string" where
  "contact_name d = lastname d @ '', '' @ firstname d"

definition received_from_input :: locator where
  \<open>received_from_input = near_label ''Received From'' ''combobox, input[type="text"]''\<close>

definition contact_option :: "receipt_data \<Rightarrow> locator" where
  "contact_option d = First (ByText (contact_name d) False)"

definition fill_received_from :: "receipt_data \<Rightarrow> unit prog" where
  "fill_received_from d =
     block [
       print (''Filling Received From: '' @ lastname d @ '', '' @ firstname d),
       try_except
         (on_page ''get_by_text''
           (block [
              perform (Click received_from_input),
              sleep 1000,
              perform (Clear received_from_input),
              sleep 500,
              perform (Fill received_from_input (contact_name d)),
              sleep 2000,
              try_except
                (bind (answer truth (IsVisible (contact_option d) 2000)) (\<lambda>vis.
                   if vis then
                     block [
                       perform (Click (contact_option d)),
                       print (''Selected contact from dropdown: '' @ contact_name d)]
                   else
                     block [
                       perform (Press received_from_input ''Enter''),
                       sleep 500,
                       print (''Entered contact name: '' @ contact_name d)]))
                (\<lambda>e. print (''Could not select from dropdown, leaving typed text: ''
                               @ contact_name d))]))
         (\<lambda>e. block [
            print (''Could not fill Received From field: '' @ e),
            try_except unawaited_all (\<lambda>e2. print (''Failed to fill Received From: '' @ e2))])]"

definition reason_input :: locator where
  "reason_input = near_label ''Reason'' text_inputs"

definition fill_reason :: "receipt_data \<Rightarrow> unit prog" where
  "fill_reason d =
     (if reason d \<noteq> [] then
        block [
          print (''Filling reason: '' @ reason d),
          try_except
            (on_page ''get_by_text''
              (block [
                 perform (Click reason_input),
                 perform (Fill reason_input (reason d)),
                 sleep 500,
                 print ''Reason filled'']))
            (\<lambda>e. block [
               print (''Could not fill reason field: '' @ e),
               try_except unawaited_all (\<lambda>e2. print (''Failed to fill reason: '' @ e2))])]
      else pure ())"

definition amount_input :: locator where
  \<open>amount_input =
     First (Sub (Sub (First (SubText (Sub (ByText ''Allocated Matters'' False) ''..'')
                                ''Amount'' False)) ''..'')
                 ''spinbutton, input[type="number"]'')\<close>

definition fill_amount :: "receipt_data \<Rightarrow> unit prog" where
  "fill_amount d =
     block [
       print (''Filling amount: $'' @ amount d),
       try_except
         (on_page ''get_by_text''
           (block [
              perform (Click amount_input),
              perform (Fill amount_input (amount d)),
              sleep 500,
              print ''Amount filled'']))
         (\<lambda>e. block [
            print (''Could not fill amount field: '' @ e),
            try_except unawaited_all (\<lambda>e2. print (''Failed to fill amount: '' @ e2))])]"

definition process_button :: locator where
  "process_button = Role ''button'' ''Process/Open Receipt'' False"

definition check_process_button :: "unit prog" where
  \<open>check_process_button =
     try_bare
       (on_page ''get_by_role''
         (bind (answer truth (IsEnabled process_button)) (\<lambda>en.
            print (''"Process/Open Receipt" button enabled: '' @ str_bool en))))
       (print ''Could not find "Process/Open Receipt" button'')\<close>

definition rule_line :: string where
  "rule_line = replicate 60 (CHR ''='')"

text \<open>\<^verbatim>\<open>try: m except KeyboardInterrupt: h\<close>\<close>

definition try_interrupt :: "'a prog \<Rightarrow> 'a prog \<Rightarrow> 'a prog" where
  "try_interrupt m h s =
     (case m s of
        (Raise Interrupt, s') \<Rightarrow> h s'
      | other \<Rightarrow> other)"

definition hold_for_inspection :: "receipt_data \<Rightarrow> unit prog" where
  "hold_for_inspection d =
     block [
       print (CHR 0x0A # rule_line),
       print ''TEST MODE: Stopping before final submission'',
       print rule_line,
       print ''Form has been filled successfully!'',
       print ''Form Summary:'',
       print (''   - Date: '' @ date d),
       print (''   - Received From: '' @ lastname d @ '', '' @ firstname d),
       print (''   - Reason: '' @ reason d),
       print (''   - Amount: $'' @ amount d),
       print ''   - Matter: Pre-filled'',
       print (CHR 0x0A # ''To actually create the receipt, run without --test-mode flag''),
       print rule_line,
       print (CHR 0x0A # ''Keeping browser open for 30 seconds for inspection...''),
       print ''   Press Ctrl+C to close early'',
       try_interrupt (sleep 30000) (print (CHR 0x0A # ''Interrupted by user''))]"

definition submit_receipt :: "unit prog" where
  \<open>submit_receipt =
     block [
       print ''Clicking "Process/Open Receipt" button...'',
       try_except
         (on_page ''get_by_role''
           (block [
              perform (Click process_button),
              sleep 3000,
              shot ''after-submit'',
              print ''Receipt submitted!'']))
         (\<lambda>e. block [print (''Failed to submit receipt: '' @ e), raise (Exception e)])]\<close>

definition finish_form :: "receipt_data \<Rightarrow> unit prog" where
  "finish_form d s = (if test_mode s then hold_for_inspection d s else submit_receipt s)"

definition after_raise :: "receipt_data \<Rightarrow> unit prog list" where
  "after_raise d =
     [fill_date d,
      fill_received_from d,
      fill_reason d,
      fill_amount d,
      sleep 1000,
      shot ''form-filled'',
      check_process_button,
      finish_form d]"

definition before_strategies :: "receipt_data \<Rightarrow> unit prog list" where
  \<open>before_strategies d =
     [print ''Filling receipt form...'',
      (\<lambda>s. (Norm (), log (PrintData ''Receipt details: '' d) s)),
      shot ''before-fill-form'',
      print ''Clicking "Deposit Funds" button...'']\<close>

definition fill_receipt_form :: "receipt_data \<Rightarrow> unit prog" where
  "fill_receipt_form d =
     call (block (before_strategies d
                  @ strategies
                  @ [shot ''deposit-button-not-found'', raise (Exception not_found)]
                  @ after_raise d))"

subsection \<open>\<^verbatim>\<open>login\<close>\<close>

definition email_input :: locator where
  \<open>email_input = First (Css ''input[type="email"]'')\<close>

definition password_input :: locator where
  \<open>password_input = First (Css ''input[type="password"]'')\<close>

definition login_button :: locator where
  "login_button = First (Role ''button'' ''Log in'' False)"

definition login_button_by_text :: locator where
  "login_button_by_text = First (HasText (Css ''button'') ''log'')"

definition two_factor_selector :: string where
  \<open>two_factor_selector =
     ''input[placeholder="Two-Factor Code"], textbox[name="Two-Factor Code"]''\<close>

definition two_factor_input :: locator where
  "two_factor_input = Role ''textbox'' ''Two-Factor Code'' False"

definition verify_button :: locator where
  "verify_button = Role ''button'' ''Verify'' False"

text \<open>
  The email field. When the wait for the first selector raises, the handler waits for
  \<^verbatim>\<open>textbox\<close> and then indexes the coroutine of an unawaited \<^verbatim>\<open>all()\<close>. A locator
  object is always truthy, so the test \<^verbatim>\<open>if not email_input\<close> never raises.
\<close>

definition find_email_input :: "locator prog" where
  \<open>find_email_input =
     try_bare
       (bind (perform (WaitForSelector ''input[type="email"]'' 10000)) (\<lambda>_. pure email_input))
       (bind (perform (WaitForSelector ''textbox'' 10000))
          (\<lambda>_. raise (Exception not_subscriptable)))\<close>

text \<open>\<^verbatim>\<open>self.credentials['two_factor_secret'] and pyotp\<close>\<close>

definition automatic_code :: "session \<Rightarrow> bool" where
  "automatic_code s \<longleftrightarrow>
     (case two_factor_secret (creds s) of None \<Rightarrow> False | Some k \<Rightarrow> k \<noteq> [])
     \<and> pyotp_installed (world s)"

definition get_code :: "string prog" where
  "get_code s =
     (if automatic_code s then generate_totp_code s
      else bind (print ''Manual 2FA required - please enter code:'')
             (\<lambda>_. answer line (Input ''Enter 2FA code: '')) s)"

text \<open>Lines 157 to 186: the branch taken when the address after the login lacks \<^verbatim>\<open>dashboard\<close>.\<close>

definition two_factor :: "unit prog" where
  "two_factor =
     block [
       print ''2FA required...'',
       try_except
         (block [
            perform (WaitForSelector two_factor_selector 15000),
            bind get_code (\<lambda>totp_code. perform (Fill two_factor_input totp_code)),
            sleep 1000,
            try_bare (perform (Click verify_button)) (perform (Press two_factor_input ''Enter'')),
            perform (WaitForUrl ''**/dashboard'' 45000),
            print ''2FA verification successful''])
         (\<lambda>e. block [shot ''2fa-error'', raise (Exception (''2FA failed: '' @ e))])]"

definition after_login_click :: "unit prog" where
  "after_login_click s =
     (if \<not> contains ''dashboard'' (url (world s) (trace s)) then two_factor s else pure () s)"

definition login :: "unit prog" where
  "login =
     block [
       print ''Logging into Smokeball...'',
       try_except
         (on_page ''goto''
           (block [
              perform (Goto ''https://app.smokeball.com.au'' ''networkidle''),
              shot ''login-page'',
              (\<lambda>s. bind find_email_input
                       (\<lambda>field. perform (Fill field (username (creds s)))) s),
              sleep 1000,
              (\<lambda>s. perform (Fill password_input (password (creds s))) s),
              sleep 1000,
              try_bare (perform (Click login_button)) (perform (Click login_button_by_text)),
              sleep 3000,
              after_login_click,
              print ''Successfully logged in'']))
         (\<lambda>e. block [shot ''login-error'', raise (Exception (''Login failed: '' @ e))])]"

subsection \<open>\<^verbatim>\<open>navigate_to_matter_transactions\<close>\<close>

definition transactions_url :: "string \<Rightarrow> string \<Rightarrow> string" where
  "transactions_url matter account =
     ''https://app.smokeball.com.au/#/billing/view-matter/'' @ matter
     @ ''/transactions/trust/'' @ account @ ''~2FTrust''"

definition navigate_to_matter_transactions :: "string \<Rightarrow> string \<Rightarrow> unit prog" where
  \<open>navigate_to_matter_transactions matter account =
     block [
       print ''Navigating to matter transactions...'',
       print (''   Matter ID: '' @ matter),
       print (''   Account ID: '' @ account),
       print (''Navigating to: '' @ transactions_url matter account),
       on_page ''goto'' (perform (Goto (transactions_url matter account) ''load'')),
       print ''Waiting for page to load...'',
       sleep 8000,
       try_bare
         (block [perform (WaitForLoadState ''networkidle'' 20000), print ''Page network idle''])
         (print ''Network idle timeout, but continuing...''),
       try_except
         (block [perform (WaitForSelector ''button, table, [role="button"]'' 15000),
                 print ''Page content loaded''])
         (\<lambda>e. block [shot ''transactions-page-error'',
                      print (''Could not verify page content: '' @ e)]),
       shot ''transactions-page-loaded'']\<close>

subsection \<open>\<^verbatim>\<open>run\<close>, \<^verbatim>\<open>main\<close> and the script\<close>

definition account_id :: string where
  "account_id = ''34154dcb-8a76-4f8c-9281-a9b80e3cca16''"

definition run_steps :: "string \<Rightarrow> receipt_data \<Rightarrow> unit prog" where
  "run_steps matter d =
     block [
       initialize,
       login,
       navigate_to_matter_transactions matter account_id,
       fill_receipt_form d,
       print ''Automation completed successfully!'']"

definition succeeded :: "session \<Rightarrow> session_result" where
  "succeeded s =
     \<lparr>success = True, error = None,
      message = (if test_mode s then ''Receipt form filled successfully''
                 else ''Receipt created successfully'')\<rparr>"

definition failed :: "string \<Rightarrow> session \<Rightarrow> session_result" where
  "failed e s =
     \<lparr>success = False, error = Some e,
      message = (if test_mode s then ''Failed to fill receipt form''
                 else ''Failed to create receipt'')\<rparr>"

definition pause_before_close :: "unit prog" where
  "pause_before_close s = (if \<not> test_mode s then sleep 5000 s else pure () s)"

definition run :: "string \<Rightarrow> receipt_data \<Rightarrow> session_result prog" where
  "run matter d =
     try_finally
       (try_except
          (bind (run_steps matter d) (\<lambda>_ s. pure (succeeded s) s))
          (\<lambda>e. bind (print (''Automation failed: '' @ e)) (\<lambda>_.
                 bind (take_screenshot ''automation-error'') (\<lambda>_ s. pure (failed e s) s))))
       (block [pause_before_close, cleanup])"

text \<open>
  The namespace that \<^verbatim>\<open>argparse\<close> returns. \<^verbatim>\<open>--test-mode\<close> is a \<^verbatim>\<open>store_true\<close> flag
  whose default is already \<^verbatim>\<open>True\<close>.
\<close>

record args =
  matter_id :: string
  arg_amount :: string
  arg_lastname :: string
  arg_firstname :: string
  arg_reason :: string
  arg_date :: string
  arg_test_mode :: bool
  submit :: bool

definition receipt_of :: "args \<Rightarrow> receipt_data" where
  "receipt_of a =
     \<lparr>amount = arg_amount a, date = arg_date a, lastname = arg_lastname a,
      firstname = arg_firstname a, reason = arg_reason a,
      description = ''Bank Transfer deposit'', type = ''Deposit''\<rparr>"

definition banner :: "args \<Rightarrow> event list" where
  "banner a =
     [Print ''Starting Smokeball Receipt Automation...'',
      Print (''Matter ID: '' @ matter_id a),
      Print (''Amount: $'' @ arg_amount a),
      Print (''Contact: '' @ arg_lastname a @ '', '' @ arg_firstname a),
      Print (''Date: '' @ arg_date a),
      Print (''Test Mode: '' @ str_bool (arg_test_mode a \<and> \<not> submit a)),
      Print []]"

text \<open>
  What \<^verbatim>\<open>parser.parse_args()\<close> makes of the command line. The parser is the library's: it
  returns the namespace, or it prints (the help, or the usage and an error) and raises
  \<^verbatim>\<open>SystemExit\<close>, with code 0 for the help and 2 for a command line it rejects.
\<close>

datatype command_line = Parsed args | Stopped nat string

text \<open>
  The value of \<open>main\<close> is the argument of \<^verbatim>\<open>sys.exit\<close>, its own or the parser's; \<open>h\<close>
  is what the process printed before.
\<close>

definition report :: "session_result \<Rightarrow> nat prog" where
  "report result s = (Norm (if success result then 0 else 1), log (PrintFinal result) s)"

definition main ::
  "world \<Rightarrow> (string \<rightharpoonup> string) \<Rightarrow> command_line \<Rightarrow> event list \<Rightarrow> nat flow \<times> event list" where
  "main w env cl h =
     (case cl of
        Stopped code output \<Rightarrow> (Norm code, h @ [Print output])
      | Parsed a \<Rightarrow>
          (case init w env (arg_test_mode a \<and> \<not> submit a) (h @ banner a) of
             (Norm u, s) \<Rightarrow>
               (case bind (run (matter_id a) (receipt_of a)) report s of (r, s') \<Rightarrow> (r, trace s'))
           | (Return, s) \<Rightarrow> (Return, trace s)
           | (Raise e, s) \<Rightarrow> (Raise e, trace s)))"

text \<open>
  The imports at the top of the module: without Playwright the process prints two lines and
  exits with code 1; without \<^verbatim>\<open>pyotp\<close> it prints two lines and goes on.
\<close>

definition playwright_missing :: "event list" where
  "playwright_missing =
     [Print ''Playwright not installed. Install with: pip install playwright'',
      Print ''   Then run: playwright install chromium'']"

definition import_lines :: "world \<Rightarrow> event list" where
  "import_lines w =
     (if pyotp_installed w then []
      else [Print ''pyotp not installed. 2FA will require manual input.'',
            Print ''   Install with: pip install pyotp''])"

text \<open>
  The whole process, from the imports to the block under
  \<^verbatim>\<open>if __name__ == '__main__'\<close>: its exit code and everything it did. An interruption of
  the event loop reaches that block as \<^verbatim>\<open>KeyboardInterrupt\<close>.
\<close>

definition script :: "world \<Rightarrow> (string \<rightharpoonup> string) \<Rightarrow> command_line \<Rightarrow> nat \<times> event list" where
  "script w env cl =
     (if \<not> playwright_installed w then (1, playwright_missing)
      else
        (case main w env cl (import_lines w) of
           (Norm code, tr) \<Rightarrow> (code, tr)
         | (Return, tr) \<Rightarrow> (0, tr)
         | (Raise Interrupt, tr) \<Rightarrow> (1, tr @ [Print (CHR 0x0A # ''Interrupted by user'')])
         | (Raise (Exception e), tr) \<Rightarrow>
             (1, tr @ [Print (CHR 0x0A # ''Unexpected error: '' @ e),
                       PrintTraceback (Exception e)])))"

definition default_args :: args where
  "default_args =
     \<lparr>matter_id = ''ce2582fe-b415-4f95-b9b9-c79c903a4654'', arg_amount = ''81.7'',
      arg_lastname = ''Stanford'', arg_firstname = ''Logan'',
      arg_reason = ''On account of test search fees'', arg_date = ''21/11/2025'',
      arg_test_mode = True, submit = False\<rparr>"

subsection \<open>Worlds and sessions to run the definitions on\<close>

definition quiet_world :: world where
  "quiet_world =
     \<lparr>effect = (\<lambda>h a. None), truth = (\<lambda>h a. Inr False), text_of = (\<lambda>h a. Inr None),
      count = (\<lambda>h a. Inr 0), line = (\<lambda>h a. Inr []), url = (\<lambda>h. []),
      stamp = (\<lambda>h. ''20251121-120000''), clock = (\<lambda>h. 0), digest = (\<lambda>k c. 0),
      playwright_installed = True, pyotp_installed = True\<rparr>"

definition secret_env :: "string \<rightharpoonup> string" where
  "secret_env = [''SMOKEBALL_2FA_SECRET'' \<mapsto> ''JBSWY3DPEHPK3PXP'']"

subsection \<open>Predicates on histories and on statements\<close>

text \<open>
  \<open>emits p m\<close>: the statement \<open>m\<close> changes nothing of the session but the history, to
  which it only appends events that satisfy \<open>p\<close>, however the world answers.
\<close>

fun action_of :: "event \<Rightarrow> action option" where
  "action_of (Did a) = Some a"
| "action_of (Failed a e) = Some a"
| "action_of other = None"

definition emits :: "(event \<Rightarrow> bool) \<Rightarrow> 'a prog \<Rightarrow> bool" where
  "emits p m \<longleftrightarrow>
     (\<forall>s r s'. m s = (r, s') \<longrightarrow> (\<exists>es. s' = s\<lparr>trace := trace s @ es\<rparr> \<and> list_all p es))"

text \<open>
  The elements that a strategy clicks as the deposit control, and the actions of the part of
  \<open>fill_receipt_form\<close> before its \<^verbatim>\<open>raise\<close>.
\<close>

fun deposit_target :: "locator \<Rightarrow> bool" where
  "deposit_target (Item c i) = (c = menu_items \<or> c = all_buttons)"
| "deposit_target l =
     (l \<in> set [menu_deposit, deposit_exact, deposit_inexact, deposit_text, deposit_aria, deposit_data])"

fun listed_element :: "locator \<Rightarrow> bool" where
  "listed_element (Item c i) = (c = menu_items \<or> c = all_buttons)"
| "listed_element l = False"

fun early_action :: "action \<Rightarrow> bool" where
  "early_action (IsVisible l t) =
     ((l, t) \<in> set [(create_new_button, 5000), (menu_deposit, 3000), (deposit_exact, 5000),
                    (deposit_inexact, 5000), (deposit_text, 5000), (deposit_aria, 5000),
                    (deposit_data, 5000)])"
| "early_action (Click l) = (l = create_new_button \<or> deposit_target l)"
| "early_action (Sleep ms) = (ms = 2000)"
| "early_action (Screenshot f) = True"
| "early_action (AllOf l) = (l = menu_items \<or> l = all_buttons)"
| "early_action (TextContent l) = listed_element l"
| "early_action a = False"

definition early :: "event \<Rightarrow> bool" where
  "early e = (case action_of e of None \<Rightarrow> True | Some a \<Rightarrow> early_action a)"

text \<open>
  Every strategy opens with one action of its own, its first question to the page; \<open>started\<close>
  reads, from what a run did, the strategies it attempted, in order. An \<open>inner\<close> event is one
  of the first part that opens no strategy.
\<close>

definition strategy_starts :: "action list" where
  "strategy_starts =
     [IsVisible create_new_button 5000, IsVisible deposit_exact 5000,
      IsVisible deposit_inexact 5000, IsVisible deposit_text 5000, AllOf all_buttons,
      IsVisible deposit_aria 5000, IsVisible deposit_data 5000]"

definition start_of :: "event \<Rightarrow> action list" where
  "start_of e =
     (case action_of e of
        None \<Rightarrow> []
      | Some a \<Rightarrow> if a \<in> set strategy_starts then [a] else [])"

definition started :: "event list \<Rightarrow> action list" where
  "started es = concat (map start_of es)"

definition inner :: "event \<Rightarrow> bool" where
  "inner e \<longleftrightarrow> early e \<and> start_of e = []"

text \<open>
  A world in which no call is interrupted: nothing raises outside \<^verbatim>\<open>Exception\<close>, and a
  sleep, which can fail in no other way, completes.
\<close>

definition calm :: "world \<Rightarrow> bool" where
  "calm w \<longleftrightarrow>
     (\<forall>h a. effect w h a \<noteq> Some Interrupt \<and> truth w h a \<noteq> Inl Interrupt
            \<and> text_of w h a \<noteq> Inl Interrupt \<and> count w h a \<noteq> Inl Interrupt
            \<and> line w h a \<noteq> Inl Interrupt)
     \<and> (\<forall>h n. effect w h (Sleep n) = None)"

text \<open>
  \<open>quiet\<close>: no click on a deposit control succeeded. \<open>landed\<close>: the events end with the
  first such click, the two-second sleep and the events of one screenshot. \<open>tidy m\<close>: in a
  calm world \<open>m\<close> completes or raises an exception having clicked no deposit control, or
  returns right after the first such click.
\<close>

fun deposit_click :: "event \<Rightarrow> bool" where
  "deposit_click (Did (Click l)) = deposit_target l"
| "deposit_click e = False"

definition quiet :: "event list \<Rightarrow> bool" where
  "quiet es = list_all (\<lambda>e. \<not> deposit_click e) es"

fun shot_event :: "event \<Rightarrow> bool" where
  "shot_event (Did (Screenshot f)) = True"
| "shot_event (Failed (Screenshot f) e) = True"
| "shot_event (Print m) = True"
| "shot_event e = False"

definition landed :: "event list \<Rightarrow> bool" where
  "landed es \<longleftrightarrow>
     (\<exists>before l after. es = before @ Did (Click l) # Did (Sleep 2000) # after
        \<and> quiet before \<and> deposit_target l \<and> list_all shot_event after)"

definition tidy :: "'a prog \<Rightarrow> bool" where
  "tidy m \<longleftrightarrow>
     (\<forall>s r s'. calm (world s) \<longrightarrow> m s = (r, s') \<longrightarrow>
        (\<exists>es. s' = s\<lparr>trace := trace s @ es\<rparr>
           \<and> (case r of Norm a \<Rightarrow> quiet es | Return \<Rightarrow> landed es
               | Raise e \<Rightarrow> quiet es \<and> e \<noteq> Interrupt)))"

text \<open>A strategy prints the exception it catches; under a calm world nothing else is raised.\<close>

definition settled :: "'a prog \<Rightarrow> bool" where
  "settled m \<longleftrightarrow> tidy m \<and> (\<forall>s r s'. calm (world s) \<longrightarrow> m s = (r, s') \<longrightarrow> (\<forall>e. r \<noteq> Raise e))"

text \<open>\<open>begins a m\<close>: on an open page \<open>m\<close> first performs \<open>a\<close> and opens no other strategy.\<close>

definition begins :: "action \<Rightarrow> 'a prog \<Rightarrow> bool" where
  "begins a m \<longleftrightarrow>
     (\<forall>s r s'. page s \<longrightarrow> m s = (r, s') \<longrightarrow>
        (\<exists>e es. s' = s\<lparr>trace := trace s @ e # es\<rparr> \<and> start_of e = [a] \<and> list_all inner es))"


text \<open>
  A session after \<open>initialize\<close>, and the world whose page shows the button named exactly
  \<^verbatim>\<open>Deposit Funds\<close>.
\<close>

definition open_session :: "world \<Rightarrow> bool \<Rightarrow> session" where
  "open_session w tm = (new_session w Map.empty tm [])\<lparr>browser := True, page := True\<rparr>"

definition button_world :: world where
  "button_world = quiet_world\<lparr>truth := (\<lambda>h a. Inr (a = IsVisible deposit_exact 5000))\<rparr>"

text \<open>Statements that never execute a \<^verbatim>\<open>return\<close>, and statements that let no \<^verbatim>\<open>Exception\<close> out.\<close>

definition no_return :: "'a prog \<Rightarrow> bool" where
  "no_return m \<longleftrightarrow> (\<forall>s. fst (m s) \<noteq> Return)"

definition catches :: "'a prog \<Rightarrow> bool" where
  "catches m \<longleftrightarrow> (\<forall>s x. fst (m s) \<noteq> Raise (Exception x))"

text \<open>What \<open>fill_receipt_form\<close> does in that world: up to the second strategy, and from it on.\<close>

definition button_trace :: "event list" where
  \<open>button_trace =
     [Print ''Filling receipt form...'',
      PrintData ''Receipt details: '' (receipt_of default_args),
      Did (Screenshot ''screenshots/receipt-before-fill-form-20251121-120000.png''),
      Print ''Screenshot saved: screenshots/receipt-before-fill-form-20251121-120000.png'',
      Print ''Clicking "Deposit Funds" button...'',
      Did (IsVisible create_new_button 5000)]\<close>

definition button_clicked :: "event list" where
  "button_clicked =
     [Did (IsVisible deposit_exact 5000),
      Print ''Found button with exact name match'',
      Did (Click deposit_exact),
      Did (Sleep 2000),
      Did (Screenshot ''screenshots/receipt-deposit-dialog-opened-20251121-120000.png''),
      Print ''Screenshot saved: screenshots/receipt-deposit-dialog-opened-20251121-120000.png'']"

definition anything :: "event \<Rightarrow> bool" where
  "anything e = True"


fun fills_field :: "event \<Rightarrow> bool" where
  "fills_field (Did (Fill l v)) = True"
| "fills_field (Failed (Fill l v) e) = True"
| "fills_field e = False"

fun close_attempt :: "event \<Rightarrow> bool" where
  "close_attempt (Did CloseBrowser) = True"
| "close_attempt (Failed CloseBrowser e) = True"
| "close_attempt e = False"


definition pause_interrupted_world :: world where
  "pause_interrupted_world =
     button_world\<lparr>url := (\<lambda>h. ''https://app.smokeball.com.au/#/dashboard''),
                   effect := (\<lambda>h a. if a = Sleep 5000 then Some Interrupt else None)\<rparr>"


text \<open>
  A world in which the menu behind \<^verbatim>\<open>Create New\<close> shows the deposit entry, and the sleep
  that follows the click on it is interrupted; the menu then lists one entry,
  \<^verbatim>\<open>Deposit Funds\<close>. In \<open>lost_world\<close> the menu lists nothing.
\<close>

definition swallow_world :: world where
  "swallow_world =
     quiet_world
       \<lparr>effect := (\<lambda>h a. if a = Sleep 2000 \<and> h \<noteq> [] \<and> last h = Did (Click menu_deposit)
                          then Some Interrupt else None),
        truth := (\<lambda>h a. Inr (a = IsVisible create_new_button 5000
                                \<or> a = IsVisible menu_deposit 3000)),
        text_of := (\<lambda>h a. Inr (if a = TextContent (Item menu_items 0)
                                  then Some ''Deposit Funds'' else None)),
        count := (\<lambda>h a. Inr (if a = AllOf menu_items then 1 else 0))\<rparr>"

definition lost_world :: world where
  "lost_world = swallow_world\<lparr>count := (\<lambda>h a. Inr 0)\<rparr>"

text \<open>Sessions after \<open>initialize\<close> whose secret is empty, and is not base32.\<close>

definition secret_session :: "string \<Rightarrow> session" where
  "secret_session k =
     (new_session quiet_world [''SMOKEBALL_2FA_SECRET'' \<mapsto> k] True [])
       \<lparr>browser := True, page := True\<rparr>"

fun asks_console :: "event \<Rightarrow> bool" where
  "asks_console (Did (Input p)) = True"
| "asks_console (Failed (Input p) e) = True"
| "asks_console e = False"

text \<open>What a call added to the history.\<close>

definition added :: "session \<Rightarrow> session \<Rightarrow> event list" where
  "added s s' = drop (length (trace s)) (trace s')"



section \<open>Rules for statements\<close>

lemma emitsI:
  assumes "\<And>s r s'. m s = (r, s') \<Longrightarrow> \<exists>es. s' = s\<lparr>trace := trace s @ es\<rparr> \<and> list_all p es"
  shows "emits p m"
  using assms by (simp add: emits_def)

lemma emitsD:
  assumes "emits p m" "m s = (r, s')"
  obtains es where "s' = s\<lparr>trace := trace s @ es\<rparr>" "list_all p es"
  using assms unfolding emits_def by blast

lemma emits_nothing: "(\<And>s. snd (m s) = s) \<Longrightarrow> emits p m"
  by (rule emitsI) (auto intro!: exI [of _ "[]"] dest: arg_cong [where f = snd])

lemma emits_one:
  assumes "\<And>s. \<exists>e. snd (m s) = log e s \<and> p e"
  shows "emits p m"
proof (rule emitsI)
  fix s r s'
  assume "m s = (r, s')"
  with assms [of s] obtain e where "s' = log e s" "p e" by auto
  then show "\<exists>es. s' = s\<lparr>trace := trace s @ es\<rparr> \<and> list_all p es"
    by (intro exI [of _ "[e]"]) (simp add: log_def)
qed

lemma emits_pure: "emits p (pure a)"
  by (rule emits_nothing) (simp add: pure_def)

lemma emits_raise: "emits p (raise e)"
  by (rule emits_nothing) (simp add: raise_def)

lemma emits_ret: "emits p ret"
  by (rule emits_nothing) (simp add: ret_def)

lemma emits_print: "p (Print msg) \<Longrightarrow> emits p (print msg)"
  by (rule emits_one) (auto simp: print_def)

lemma emits_perform:
  assumes "p (Did a)" "\<And>e. p (Failed a e)"
  shows "emits p (perform a)"
  by (rule emits_one) (use assms in \<open>auto simp: perform_def split: option.splits\<close>)

lemma emits_sleep:
  assumes "p (Did (Sleep n))" "\<And>e. p (Failed (Sleep n) e)"
  shows "emits p (sleep n)"
  unfolding sleep_def using assms by (rule emits_perform)

lemma emits_answer:
  assumes "p (Did a)" "\<And>e. p (Failed a e)"
  shows "emits p (answer oracle a)"
  by (rule emits_one) (use assms in \<open>auto simp: answer_def split: sum.splits\<close>)

text \<open>A statement that runs \<open>m\<close> and then either stops or runs one of the \<open>n r\<close>.\<close>

lemma emits_after:
  assumes m: "emits p m" and n: "\<And>x. emits p (n x)"
    and k: "\<And>s r s'. m s = (r, s') \<Longrightarrow> snd (k s) = s' \<or> (\<exists>x. k s = n x s')"
  shows "emits p k"
proof (rule emitsI)
  fix s r' s''
  assume ks: "k s = (r', s'')"
  obtain r s' where ms: "m s = (r, s')" by (cases "m s")
  from m ms obtain es where 1: "s' = s\<lparr>trace := trace s @ es\<rparr>" "list_all p es"
    by (rule emitsD)
  from k [OF ms] show "\<exists>es. s'' = s\<lparr>trace := trace s @ es\<rparr> \<and> list_all p es"
  proof
    assume "snd (k s) = s'"
    with ks 1 show ?thesis by auto
  next
    assume "\<exists>x. k s = n x s'"
    then obtain x where "n x s' = (r', s'')" using ks by auto
    with n [of x] obtain es' where "s'' = s'\<lparr>trace := trace s' @ es'\<rparr>" "list_all p es'"
      by (rule emitsD)
    with 1 show ?thesis
      by (intro exI [of _ "es @ es'"]) simp
  qed
qed

lemma emits_bind:
  assumes "emits p m" "\<And>a. emits p (f a)"
  shows "emits p (bind m f)"
  by (rule emits_after [where m = m and n = f])
    (use assms in \<open>auto simp: bind_def split: flow.splits\<close>)

lemma emits_discard: "emits p m \<Longrightarrow> emits p (discard m)"
  unfolding discard_def by (intro emits_bind emits_pure)

lemma emits_block: "list_all (emits p) ms \<Longrightarrow> emits p (block ms)"
  by (induction ms) (auto intro: emits_pure emits_bind)

lemma emits_try_except:
  assumes "emits p m" "\<And>e. emits p (h e)"
  shows "emits p (try_except m h)"
  by (rule emits_after [where m = m and n = h])
    (use assms in \<open>auto simp: try_except_def split: flow.splits exn.splits\<close>)

lemma emits_try_bare:
  assumes "emits p m" "emits p h"
  shows "emits p (try_bare m h)"
  by (rule emits_after [where m = m and n = "\<lambda>x::unit. h"])
    (use assms in \<open>auto simp: try_bare_def split: flow.splits\<close>)

lemma emits_try_interrupt:
  assumes "emits p m" "emits p h"
  shows "emits p (try_interrupt m h)"
  by (rule emits_after [where m = m and n = "\<lambda>x::unit. h"])
    (use assms in \<open>auto simp: try_interrupt_def split: flow.splits exn.splits\<close>)

lemma emits_call: "emits p m \<Longrightarrow> emits p (call m)"
  by (rule emits_after [where m = m and n = "\<lambda>x::unit. pure ()"])
    (auto simp: call_def emits_pure split: flow.splits)

lemma emits_on_page: "emits p m \<Longrightarrow> emits p (on_page attr m)"
  unfolding emits_def on_page_def by (auto intro: exI [of _ "[]"])

lemma emits_state:
  assumes "\<And>s0. emits p (f s0)"
  shows "emits p (\<lambda>s. f s s)"
  using assms unfolding emits_def by blast

lemma emits_if: "emits p m \<Longrightarrow> emits p n \<Longrightarrow> emits p (if b then m else n)"
  by simp

lemmas emits_intros =
  emits_pure emits_raise emits_ret emits_print emits_perform emits_sleep emits_answer
  emits_bind emits_discard emits_try_except emits_try_bare emits_try_interrupt emits_call
  emits_on_page emits_if

lemma emits_take_screenshot:
  assumes "\<And>m. p (Print m)" "\<And>f. p (Did (Screenshot f))" "\<And>f e. p (Failed (Screenshot f) e)"
  shows "emits p (take_screenshot name)"
  unfolding take_screenshot_def
  by (intro emits_try_except emits_state [where f = "\<lambda>s0. bind (on_page ''screenshot'' (perform (Screenshot (screenshot_file name (stamp (world s0) (trace s0)))))) (\<lambda>_. bind (print (''Screenshot saved: '' @ screenshot_file name (stamp (world s0) (trace s0)))) (\<lambda>_. pure (Some (screenshot_file name (stamp (world s0) (trace s0))))))"]
      emits_bind emits_on_page emits_perform emits_print emits_pure assms)

lemma emits_log: "p e \<Longrightarrow> emits p (\<lambda>s. (r, log e s))"
  by (rule emits_one) auto

lemma early_simps [simp]:
  "early (Print m)" "early (PrintData m d)"
  "early (Did a) = early_action a" "early (Failed a e) = early_action a"
  by (simp_all add: early_def)

lemma deposit_target_simps [simp]:
  "deposit_target menu_deposit" "deposit_target deposit_exact" "deposit_target deposit_inexact"
  "deposit_target deposit_text" "deposit_target deposit_aria" "deposit_target deposit_data"
  "deposit_target (Item menu_items i)" "deposit_target (Item all_buttons i)"
  "\<not> deposit_target create_new_button"
  by (simp_all add: menu_deposit_def deposit_exact_def deposit_inexact_def deposit_text_def
      deposit_aria_def deposit_data_def create_new_button_def)

lemma start_of_simps [simp]:
  "start_of (Print m) = []" "start_of (PrintData m d) = []"
  "start_of (Did (Click l)) = []" "start_of (Failed (Click l) e) = []"
  "start_of (Did (Sleep n)) = []" "start_of (Failed (Sleep n) e) = []"
  "start_of (Did (Screenshot f)) = []" "start_of (Failed (Screenshot f) e) = []"
  "start_of (Did (TextContent l)) = []" "start_of (Failed (TextContent l) e) = []"
  "start_of (Did (IsVisible menu_deposit 3000)) = []"
  "start_of (Failed (IsVisible menu_deposit 3000) e) = []"
  "start_of (Did (AllOf menu_items)) = []" "start_of (Failed (AllOf menu_items) e) = []"
  by (simp_all add: start_of_def strategy_starts_def menu_items_def all_buttons_def)

lemma inner_simps [simp]:
  "inner (Print m)" "inner (PrintData m d)"
  "inner (Did (Click l)) = early_action (Click l)"
  "inner (Failed (Click l) e) = early_action (Click l)"
  "inner (Did (Sleep n)) = early_action (Sleep n)"
  "inner (Failed (Sleep n) e) = early_action (Sleep n)"
  "inner (Did (Screenshot f))" "inner (Failed (Screenshot f) e)"
  "inner (Did (TextContent l)) = listed_element l"
  "inner (Failed (TextContent l) e) = listed_element l"
  "inner (Did (IsVisible menu_deposit 3000))" "inner (Failed (IsVisible menu_deposit 3000) e)"
  "inner (Did (AllOf menu_items))" "inner (Failed (AllOf menu_items) e)"
  by (simp_all add: inner_def)

lemma emits_mono:
  assumes "emits p m" "\<And>e. p e \<Longrightarrow> q e"
  shows "emits q m"
proof (rule emitsI)
  fix s r s'
  assume "m s = (r, s')"
  with assms(1) obtain es where "s' = s\<lparr>trace := trace s @ es\<rparr>" "list_all p es"
    by (rule emitsD)
  with assms(2) show "\<exists>es. s' = s\<lparr>trace := trace s @ es\<rparr> \<and> list_all q es"
    by (auto simp: list_all_iff)
qed

lemma emits_early:
  assumes "emits inner m"
  shows "emits early m"
  using assms by (rule emits_mono) (simp add: inner_def)

lemma emits_shot: "emits inner (shot name)"
  unfolding shot_def by (intro emits_discard emits_take_screenshot) simp_all

lemma emits_click_and_return: "deposit_target l \<Longrightarrow> emits inner (click_and_return l)"
  unfolding click_and_return_def
  by (intro emits_block) (simp add: emits_intros emits_shot)

lemma emits_menu_loop: "list_all listed_element ls \<Longrightarrow> emits inner (menu_loop ls)"
proof (induction ls)
  case Nil
  show ?case by (simp add: emits_pure)
next
  case (Cons l ls)
  then obtain c i where l: "l = Item c i" "c = menu_items \<or> c = all_buttons"
    by (cases l) auto
  then have "deposit_target l" by auto
  then have "emits inner (menu_item_body l)"
    unfolding menu_item_body_def using l
    by (intro emits_intros emits_click_and_return) auto
  with Cons show ?case
    by (auto intro!: emits_intros)
qed

lemma emits_button_loop: "list_all listed_element ls \<Longrightarrow> emits inner (button_loop i ls)"
proof (induction ls arbitrary: i)
  case Nil
  show ?case by (simp add: emits_pure)
next
  case (Cons l ls)
  then obtain c j where l: "l = Item c j" "c = menu_items \<or> c = all_buttons"
    by (cases l) auto
  then have "deposit_target l" by auto
  then have "emits inner (button_body i l)"
    unfolding button_body_def using l
    by (intro emits_intros emits_click_and_return) auto
  with Cons show ?case
    by (auto intro!: emits_intros)
qed

lemma listed_elements:
  "list_all listed_element (elements menu_items n)"
  "list_all listed_element (elements all_buttons n)"
  by (simp_all add: elements_def list_all_iff)

lemma emits_strategy1: "emits early strategy1"
  unfolding strategy1_def
  by (auto intro!: emits_intros emits_block emits_early [OF emits_click_and_return]
      emits_early [OF emits_menu_loop] listed_elements emits_early [OF emits_shot]
      simp: create_new_button_def)

lemma emits_visible_strategy:
  assumes "deposit_target l" "early_action (IsVisible l 5000)"
  shows "emits early (visible_strategy l attr foundmsg failmsg)"
  unfolding visible_strategy_def using assms
  by (intro emits_intros emits_early [OF emits_click_and_return]) simp_all

lemma emits_strategy5: "emits early strategy5"
  unfolding strategy5_def
  by (intro emits_intros emits_early [OF emits_button_loop] listed_elements) simp_all

lemma emits_strategies: "list_all (emits early) strategies"
  by (simp add: strategies_def strategy2_def strategy3_def strategy4_def strategy6_def
      strategy7_def emits_strategy1 emits_strategy5 emits_visible_strategy)

lemma emits_before_strategies: "list_all (emits inner) (before_strategies d)"
  by (simp add: before_strategies_def emits_print emits_shot emits_log)

lemma quiet_simps [simp]:
  "quiet []" "quiet (e # es) = (\<not> deposit_click e \<and> quiet es)"
  "quiet (es @ es') = (quiet es \<and> quiet es')"
  by (simp_all add: quiet_def)

lemma landed_after_quiet: "quiet es \<Longrightarrow> landed es' \<Longrightarrow> landed (es @ es')"
  unfolding landed_def
proof (elim exE conjE)
  fix before l after
  assume "quiet es" "es' = before @ Did (Click l) # Did (Sleep 2000) # after" "quiet before"
    "deposit_target l" "list_all shot_event after"
  then show "\<exists>before l after. es @ es' = before @ Did (Click l) # Did (Sleep 2000) # after
      \<and> quiet before \<and> deposit_target l \<and> list_all shot_event after"
    by (intro exI [of _ "es @ before"] exI [of _ l] exI [of _ after]) simp
qed

lemma landed_not_quiet: "landed es \<Longrightarrow> \<not> quiet es"
  by (auto simp: landed_def)

lemma tidyI:
  assumes "\<And>s r s'. calm (world s) \<Longrightarrow> m s = (r, s') \<Longrightarrow>
    \<exists>es. s' = s\<lparr>trace := trace s @ es\<rparr>
       \<and> (case r of Norm a \<Rightarrow> quiet es | Return \<Rightarrow> landed es | Raise e \<Rightarrow> quiet es \<and> e \<noteq> Interrupt)"
  shows "tidy m"
  using assms unfolding tidy_def by blast

lemma tidyD:
  assumes "tidy m" "calm (world s)" "m s = (r, s')"
  obtains es where "s' = s\<lparr>trace := trace s @ es\<rparr>"
    "case r of Norm a \<Rightarrow> quiet es | Return \<Rightarrow> landed es | Raise e \<Rightarrow> quiet es \<and> e \<noteq> Interrupt"
  using assms unfolding tidy_def by blast

text \<open>
  A statement that runs \<open>m\<close> and then either passes its outcome on or, when \<open>m\<close> did not
  return, runs one of the \<open>n x\<close>.
\<close>

lemma tidy_after:
  assumes m: "tidy m" and n: "\<And>x. tidy (n x)"
    and k: "\<And>s r s'. m s = (r, s') \<Longrightarrow>
              (case r of
                 Return \<Rightarrow> k s = (Return, s')
               | Norm a \<Rightarrow> (\<exists>b. k s = (Norm b, s')) \<or> (\<exists>x. k s = n x s')
               | Raise e \<Rightarrow> k s = (Raise e, s') \<or> (\<exists>x. k s = n x s'))"
  shows "tidy k"
proof (rule tidyI)
  fix s r' s''
  assume calm: "calm (world s)" and ks: "k s = (r', s'')"
  obtain r s' where ms: "m s = (r, s')" by (cases "m s")
  from m calm ms obtain es where s': "s' = s\<lparr>trace := trace s @ es\<rparr>"
    and es: "case r of Norm a \<Rightarrow> quiet es | Return \<Rightarrow> landed es | Raise e \<Rightarrow> quiet es \<and> e \<noteq> Interrupt"
    by (rule tidyD)
  let ?goal = "\<exists>es. s'' = s\<lparr>trace := trace s @ es\<rparr>
    \<and> (case r' of Norm a \<Rightarrow> quiet es | Return \<Rightarrow> landed es | Raise e \<Rightarrow> quiet es \<and> e \<noteq> Interrupt)"
  have continue: ?goal if q: "quiet es" and x: "k s = n x s'" for x
  proof -
    from s' calm have "calm (world s')" by simp
    moreover from x ks have "n x s' = (r', s'')" by simp
    ultimately obtain es' where s'': "s'' = s'\<lparr>trace := trace s' @ es'\<rparr>"
      and es': "case r' of Norm a \<Rightarrow> quiet es' | Return \<Rightarrow> landed es'
                | Raise e \<Rightarrow> quiet es' \<and> e \<noteq> Interrupt"
      using n [of x] by (auto elim: tidyD)
    from s' s'' have "s'' = s\<lparr>trace := trace s @ (es @ es')\<rparr>" by simp
    moreover from q es' have "case r' of Norm a \<Rightarrow> quiet (es @ es') | Return \<Rightarrow> landed (es @ es')
                | Raise e \<Rightarrow> quiet (es @ es') \<and> e \<noteq> Interrupt"
      by (cases r') (simp_all add: landed_after_quiet)
    ultimately show ?thesis by blast
  qed
  show ?goal
  proof (cases r)
    case (Norm a)
    with es have q: "quiet es" by simp
    from k [OF ms] Norm consider b where "k s = (Norm b, s')" | x where "k s = n x s'"
      by auto
    then show ?thesis
    proof cases
      case 1
      with ks s' q show ?thesis by auto
    next
      case 2
      with q show ?thesis by (rule continue)
    qed
  next
    case Return
    with k [OF ms] ks es s' show ?thesis by auto
  next
    case (Raise e)
    with es have q: "quiet es" "e \<noteq> Interrupt" by simp_all
    from k [OF ms] Raise consider "k s = (Raise e, s')" | x where "k s = n x s'"
      by auto
    then show ?thesis
    proof cases
      case 1
      with ks s' q show ?thesis by auto
    next
      case 2
      with q(1) show ?thesis by (rule continue)
    qed
  qed
qed

lemma tidy_unchanged:
  assumes "\<And>s. \<exists>r. m s = (r, s) \<and> r \<noteq> Return \<and> r \<noteq> Raise Interrupt"
  shows "tidy m"
proof (rule tidyI)
  fix s r s'
  assume "m s = (r, s')"
  with assms [of s] have "s' = s" "r \<noteq> Return" "r \<noteq> Raise Interrupt" by auto
  then show "\<exists>es. s' = s\<lparr>trace := trace s @ es\<rparr>
       \<and> (case r of Norm a \<Rightarrow> quiet es | Return \<Rightarrow> landed es | Raise e \<Rightarrow> quiet es \<and> e \<noteq> Interrupt)"
    by (intro exI [of _ "[]"]) (auto split: flow.splits)
qed

lemma tidy_pure: "tidy (pure a)"
  by (rule tidy_unchanged) (simp add: pure_def)

lemma tidy_raise: "tidy (raise (Exception e))"
  by (rule tidy_unchanged) (simp add: raise_def)

lemma tidy_one:
  assumes "\<And>s. calm (world s) \<Longrightarrow>
     \<exists>e r. m s = (r, log e s) \<and> \<not> deposit_click e \<and> r \<noteq> Return \<and> r \<noteq> Raise Interrupt"
  shows "tidy m"
proof (rule tidyI)
  fix s r s'
  assume "calm (world s)" "m s = (r, s')"
  with assms [of s] obtain e where "s' = log e s" "\<not> deposit_click e" "r \<noteq> Return"
    "r \<noteq> Raise Interrupt" by auto
  then show "\<exists>es. s' = s\<lparr>trace := trace s @ es\<rparr>
       \<and> (case r of Norm a \<Rightarrow> quiet es | Return \<Rightarrow> landed es | Raise e \<Rightarrow> quiet es \<and> e \<noteq> Interrupt)"
    by (intro exI [of _ "[e]"]) (auto simp: log_def split: flow.splits)
qed

lemma tidy_print: "tidy (print msg)"
  by (rule tidy_one) (auto simp: print_def intro!: exI [of _ "Print msg"])

lemma tidy_log: "\<not> deposit_click e \<Longrightarrow> tidy (\<lambda>s. (Norm a, log e s))"
  by (rule tidy_one) (auto intro!: exI [of _ e])

lemma tidy_perform: "\<not> deposit_click (Did a) \<Longrightarrow> tidy (perform a)"
  by (rule tidy_one) (auto simp: perform_def calm_def split: option.splits)

lemma tidy_sleep: "tidy (sleep n)"
  unfolding sleep_def by (rule tidy_perform) simp

lemma tidy_truth: "tidy (answer truth (IsVisible l t))"
  by (rule tidy_one) (auto simp: answer_def calm_def split: sum.splits)

lemma tidy_count: "tidy (answer count (AllOf l))"
  by (rule tidy_one) (auto simp: answer_def calm_def split: sum.splits)

lemma tidy_text: "tidy (answer text_of (TextContent l))"
  by (rule tidy_one) (auto simp: answer_def calm_def split: sum.splits)

lemma tidy_bind:
  assumes "tidy m" "\<And>a. tidy (f a)"
  shows "tidy (bind m f)"
  by (rule tidy_after [where m = m and n = f])
    (use assms in \<open>auto simp: bind_def split: flow.splits\<close>)

lemma tidy_discard: "tidy m \<Longrightarrow> tidy (discard m)"
  unfolding discard_def by (intro tidy_bind tidy_pure)

lemma tidy_block: "list_all tidy ms \<Longrightarrow> tidy (block ms)"
  by (induction ms) (auto intro: tidy_pure tidy_bind)

lemma tidy_try_except:
  assumes "tidy m" "\<And>e. tidy (h e)"
  shows "tidy (try_except m h)"
  by (rule tidy_after [where m = m and n = h])
    (use assms in \<open>auto simp: try_except_def split: flow.splits exn.splits\<close>)

lemma tidy_try_bare:
  assumes "tidy m" "tidy h"
  shows "tidy (try_bare m h)"
  by (rule tidy_after [where m = m and n = "\<lambda>x::unit. h"])
    (use assms in \<open>auto simp: try_bare_def split: flow.splits\<close>)

lemma tidy_on_page: "tidy m \<Longrightarrow> tidy (on_page attr m)"
proof (rule tidyI)
  fix s r s'
  assume m: "tidy m" and calm: "calm (world s)" and eq: "on_page attr m s = (r, s')"
  show "\<exists>es. s' = s\<lparr>trace := trace s @ es\<rparr>
       \<and> (case r of Norm a \<Rightarrow> quiet es | Return \<Rightarrow> landed es | Raise e \<Rightarrow> quiet es \<and> e \<noteq> Interrupt)"
  proof (cases "page s")
    case True
    with eq have "m s = (r, s')" by (simp add: on_page_def)
    with m calm show ?thesis by (auto elim: tidyD)
  next
    case False
    with eq show ?thesis
      by (intro exI [of _ "[]"]) (auto simp: on_page_def)
  qed
qed

lemma tidy_state:
  assumes "\<And>s0. tidy (f s0)"
  shows "tidy (\<lambda>s. f s s)"
  using assms unfolding tidy_def by blast

lemma tidy_if: "tidy m \<Longrightarrow> tidy n \<Longrightarrow> tidy (if b then m else n)"
  by simp

lemmas tidy_intros =
  tidy_pure tidy_raise tidy_print tidy_perform tidy_sleep tidy_truth tidy_count tidy_text
  tidy_bind tidy_discard tidy_try_except tidy_try_bare tidy_on_page tidy_if

lemma block_append: "block (xs @ ys) = bind (block xs) (\<lambda>_. block ys)"
proof (induction xs)
  case Nil
  show ?case by (rule ext) (simp add: bind_def pure_def)
next
  case (Cons m ms)
  show ?case
    by (rule ext) (simp add: Cons bind_def split: prod.splits flow.splits)
qed

lemma shot_calm:
  assumes "calm (world s)"
  shows "\<exists>es. shot name s = (Norm (), s\<lparr>trace := trace s @ es\<rparr>) \<and> list_all shot_event es"
proof (cases "page s")
  case False
  then show ?thesis
    by (intro exI [of _ "[Print (''Failed to take screenshot: '' @ no_attribute ''screenshot'')]"])
      (simp add: shot_def discard_def take_screenshot_def try_except_def bind_def on_page_def
        print_def pure_def log_def)
next
  case True
  let ?f = "screenshot_file name (stamp (world s) (trace s))"
  show ?thesis
  proof (cases "effect (world s) (trace s) (Screenshot ?f)")
    case None
    with True show ?thesis
      by (intro exI [of _ "[Did (Screenshot ?f), Print (''Screenshot saved: '' @ ?f)]"])
        (simp add: shot_def discard_def take_screenshot_def try_except_def bind_def on_page_def
          perform_def print_def pure_def log_def)
  next
    case (Some e)
    with assms obtain x where "e = Exception x"
      by (cases e) (auto simp: calm_def)
    with Some True show ?thesis
      by (intro exI [of _ "[Failed (Screenshot ?f) e, Print (''Failed to take screenshot: '' @ x)]"])
        (simp add: shot_def discard_def take_screenshot_def try_except_def bind_def on_page_def
          perform_def print_def pure_def log_def)
  qed
qed

lemma shot_events_quiet: "list_all shot_event es \<Longrightarrow> quiet es"
  unfolding quiet_def
proof (induction es)
  case Nil
  show ?case by simp
next
  case (Cons e es)
  then show ?case by (cases e rule: shot_event.cases) simp_all
qed

lemma tidy_shot: "tidy (shot name)"
proof (rule tidyI)
  fix s r s'
  assume "calm (world s)" "shot name s = (r, s')"
  with shot_calm [of s name] obtain es where "r = Norm ()" "s' = s\<lparr>trace := trace s @ es\<rparr>"
    "list_all shot_event es" by auto
  then show "\<exists>es. s' = s\<lparr>trace := trace s @ es\<rparr>
       \<and> (case r of Norm a \<Rightarrow> quiet es | Return \<Rightarrow> landed es | Raise e \<Rightarrow> quiet es \<and> e \<noteq> Interrupt)"
    by (auto dest: shot_events_quiet)
qed

lemma click_and_return_calm:
  assumes calm: "calm (world s)"
  shows "(\<exists>e. e \<noteq> Interrupt \<and> click_and_return l s = (Raise e, log (Failed (Click l) e) s))
       \<or> (\<exists>es. click_and_return l s
                = (Return, s\<lparr>trace := trace s @ Did (Click l) # Did (Sleep 2000) # es\<rparr>)
              \<and> list_all shot_event es)"
proof (cases "effect (world s) (trace s) (Click l)")
  case (Some e)
  with calm have "e \<noteq> Interrupt" by (auto simp: calm_def)
  with Some show ?thesis
    by (simp add: click_and_return_def bind_def perform_def)
next
  case None
  let ?s1 = "log (Did (Click l)) s"
  let ?s2 = "log (Did (Sleep 2000)) ?s1"
  from calm have sl: "effect (world ?s1) (trace ?s1) (Sleep 2000) = None"
    by (simp add: calm_def log_def)
  from calm have "calm (world ?s2)" by (simp add: log_def)
  from shot_calm [OF this, of "''deposit-dialog-opened''"] obtain es where
    es: "shot ''deposit-dialog-opened'' ?s2 = (Norm (), ?s2\<lparr>trace := trace ?s2 @ es\<rparr>)"
      "list_all shot_event es"
    by blast
  have "click_and_return l s = (Return, ?s2\<lparr>trace := trace ?s2 @ es\<rparr>)"
    using None sl es(1)
    by (simp add: click_and_return_def bind_def perform_def sleep_def ret_def)
  with es(2) show ?thesis
    by (intro disjI2 exI [of _ es]) (simp add: log_def)
qed

lemma tidy_click_and_return:
  assumes "deposit_target l"
  shows "tidy (click_and_return l)"
proof (rule tidyI)
  fix s r s'
  assume calm: "calm (world s)" and eq: "click_and_return l s = (r, s')"
  from click_and_return_calm [OF calm, of l]
  show "\<exists>es. s' = s\<lparr>trace := trace s @ es\<rparr>
       \<and> (case r of Norm a \<Rightarrow> quiet es | Return \<Rightarrow> landed es | Raise e \<Rightarrow> quiet es \<and> e \<noteq> Interrupt)"
  proof (elim disjE exE conjE)
    fix e
    assume "e \<noteq> Interrupt" "click_and_return l s = (Raise e, log (Failed (Click l) e) s)"
    with eq show ?thesis
      by (intro exI [of _ "[Failed (Click l) e]"]) (auto simp: log_def)
  next
    fix es
    assume 1: "click_and_return l s
        = (Return, s\<lparr>trace := trace s @ Did (Click l) # Did (Sleep 2000) # es\<rparr>)"
      and 2: "list_all shot_event es"
    have "landed (Did (Click l) # Did (Sleep 2000) # es)"
      unfolding landed_def using assms 2
      by (intro exI [of _ "[]"] exI [of _ l] exI [of _ es]) simp
    with 1 eq show ?thesis
      by (intro exI [of _ "Did (Click l) # Did (Sleep 2000) # es"]) auto
  qed
qed

lemma tidy_menu_loop: "list_all listed_element ls \<Longrightarrow> tidy (menu_loop ls)"
proof (induction ls)
  case Nil
  show ?case by (simp add: tidy_pure)
next
  case (Cons l ls)
  then obtain c i where l: "l = Item c i" "c = menu_items \<or> c = all_buttons"
    by (cases l) auto
  then have "deposit_target l" by auto
  then have "tidy (menu_item_body l)"
    unfolding menu_item_body_def
    by (intro tidy_intros tidy_click_and_return)
  with Cons show ?case
    by (auto intro!: tidy_intros)
qed

lemma tidy_button_loop: "list_all listed_element ls \<Longrightarrow> tidy (button_loop i ls)"
proof (induction ls arbitrary: i)
  case Nil
  show ?case by (simp add: tidy_pure)
next
  case (Cons l ls)
  then obtain c j where l: "l = Item c j" "c = menu_items \<or> c = all_buttons"
    by (cases l) auto
  then have "deposit_target l" by auto
  then have "tidy (button_body i l)"
    unfolding button_body_def
    by (intro tidy_intros tidy_click_and_return)
  with Cons show ?case
    by (auto intro!: tidy_intros)
qed

lemma tidy_strategy1: "tidy strategy1"
  unfolding strategy1_def
  by (auto intro!: tidy_intros tidy_block tidy_click_and_return tidy_menu_loop
      listed_elements tidy_shot)

lemma tidy_visible_strategy:
  "deposit_target l \<Longrightarrow> tidy (visible_strategy l attr foundmsg failmsg)"
  unfolding visible_strategy_def
  by (intro tidy_intros tidy_click_and_return)

lemma tidy_strategy5: "tidy strategy5"
  unfolding strategy5_def
  by (intro tidy_intros tidy_button_loop listed_elements)

lemma settled_caught:
  assumes "tidy (try_except m (\<lambda>e. print (f e)))"
  shows "settled (try_except m (\<lambda>e. print (f e)))"
  unfolding settled_def
proof (intro conjI allI impI)
  fix s r s' e
  assume calm: "calm (world s)" and eq: "try_except m (\<lambda>e. print (f e)) s = (r, s')"
  show "r \<noteq> Raise e"
  proof
    assume r: "r = Raise e"
    with assms calm eq have "e \<noteq> Interrupt" by (auto elim: tidyD)
    moreover from eq r have "e = Interrupt"
      by (auto simp: try_except_def print_def split: prod.splits flow.splits exn.splits)
    ultimately show False by simp
  qed
qed (rule assms)

lemma settled_strategies: "list_all settled strategies"
proof -
  have 1: "settled strategy1"
    using tidy_strategy1 unfolding strategy1_def by (rule settled_caught)
  have 5: "settled strategy5"
    using tidy_strategy5 unfolding strategy5_def by (rule settled_caught)
  have v: "settled (visible_strategy l attr foundmsg failmsg)" if "deposit_target l"
    for l attr foundmsg failmsg
    using tidy_visible_strategy [OF that] unfolding visible_strategy_def by (rule settled_caught)
  show ?thesis
    by (simp add: strategies_def strategy2_def strategy3_def strategy4_def strategy6_def
        strategy7_def 1 5 v)
qed

lemma settled_norm:
  assumes "tidy m" "\<And>s. \<exists>a s'. m s = (Norm a, s')"
  shows "settled m"
  unfolding settled_def using assms by (metis flow.distinct(3) prod.inject)

lemma settled_before_strategies: "list_all settled (before_strategies d)"
proof -
  have "settled (print msg)" for msg
    by (rule settled_norm [OF tidy_print]) (simp add: print_def)
  moreover have "settled (\<lambda>s. (Norm (), log (PrintData msg d) s))" for msg
    by (rule settled_norm [OF tidy_log]) simp_all
  moreover have "settled (shot name)" for name
    unfolding settled_def
  proof (intro conjI allI impI)
    fix s r s' e
    assume "calm (world s)" "shot name s = (r, s')"
    with shot_calm [of s name] show "r \<noteq> Raise e" by auto
  qed (rule tidy_shot)
  ultimately show ?thesis by (simp add: before_strategies_def)
qed

lemma settled_block: "list_all settled ms \<Longrightarrow> settled (block ms)"
proof (induction ms)
  case Nil
  have "settled (pure ())"
    by (rule settled_norm [OF tidy_pure]) (simp add: pure_def)
  then show ?case by simp
next
  case (Cons m ms)
  then have m: "settled m" and ms: "settled (block ms)" by simp_all
  show ?case
    unfolding settled_def
  proof (intro conjI allI impI)
    from m ms show "tidy (block (m # ms))"
      by (auto simp: settled_def intro: tidy_bind)
  next
    fix s r s' e
    assume calm: "calm (world s)" and eq: "block (m # ms) s = (r, s')"
    obtain r1 s1 where 1: "m s = (r1, s1)" by (cases "m s")
    with m calm have r1: "\<forall>e. r1 \<noteq> Raise e" and s1: "calm (world s1)"
      by (auto simp: settled_def elim!: tidyD)
    show "r \<noteq> Raise e"
    proof (cases r1)
      case (Norm a)
      with 1 eq have "block ms s1 = (r, s')" by (simp add: bind_def)
      with ms s1 show ?thesis by (auto simp: settled_def)
    next
      case Return
      with 1 eq show ?thesis by (simp add: bind_def)
    next
      case (Raise x)
      with r1 show ?thesis by simp
    qed
  qed
qed


lemma started_simps [simp]:
  "started [] = []" "started (e # es) = start_of e @ started es"
  "started (es @ es') = started es @ started es'"
  by (simp_all add: started_def)

lemma started_inner: "list_all inner es \<Longrightarrow> started es = []"
  by (induction es) (simp_all add: inner_def)

lemma begins_guarded:
  assumes F: "\<And>v. emits inner (F v)" and H: "\<And>e. emits inner (H e)"
    and a: "a \<in> set strategy_starts"
  shows "begins a (try_except (on_page attr (bind (answer oracle a) F)) H)"
  unfolding begins_def
proof (intro allI impI)
  fix s r s'
  let ?k = "try_except (on_page attr (bind (answer oracle a) F)) H"
  assume page: "page s" and eq: "?k s = (r, s')"
  have "\<exists>e k'. ?k s = k' (log e s) \<and> emits inner k' \<and> start_of e = [a]"
  proof (cases "oracle (world s) (trace s) a")
    case (Inr v)
    with page have "?k s = try_except (F v) H (log (Did a) s)"
      by (simp add: try_except_def on_page_def bind_def answer_def)
    moreover have "emits inner (try_except (F v) H)"
      by (intro emits_try_except F H)
    moreover have "start_of (Did a) = [a]"
      using a by (simp add: start_of_def)
    ultimately show ?thesis by blast
  next
    case (Inl e)
    with page have "?k s = try_except (raise e) H (log (Failed a e) s)"
      by (simp add: try_except_def on_page_def bind_def answer_def raise_def)
    moreover have "emits inner (try_except (raise e) H)"
      by (intro emits_try_except emits_raise H)
    moreover have "start_of (Failed a e) = [a]"
      using a by (simp add: start_of_def)
    ultimately show ?thesis by blast
  qed
  then obtain e k' where k: "?k s = k' (log e s)" "emits inner k'" "start_of e = [a]"
    by blast
  from k(1) eq have "k' (log e s) = (r, s')" by simp
  with k(2) obtain es where "s' = (log e s)\<lparr>trace := trace (log e s) @ es\<rparr>" "list_all inner es"
    by (rule emitsD)
  with k(3) show "\<exists>e es. s' = s\<lparr>trace := trace s @ e # es\<rparr> \<and> start_of e = [a] \<and> list_all inner es"
    by (intro exI [of _ e] exI [of _ es]) (simp add: log_def)
qed

lemma begins_strategy1: "begins (strategy_starts ! 0) strategy1"
  unfolding strategy1_def
  by (simp add: strategy_starts_def, rule begins_guarded)
    (auto intro!: emits_intros emits_block emits_click_and_return emits_menu_loop
      listed_elements emits_shot simp: create_new_button_def strategy_starts_def)

lemma begins_visible_strategy:
  assumes "deposit_target l" "IsVisible l 5000 \<in> set strategy_starts"
  shows "begins (IsVisible l 5000) (visible_strategy l attr foundmsg failmsg)"
  unfolding visible_strategy_def
  by (rule begins_guarded) (use assms in \<open>auto intro!: emits_intros emits_click_and_return\<close>)

lemma begins_strategy5: "begins (strategy_starts ! 4) strategy5"
  unfolding strategy5_def
  by (simp add: strategy_starts_def, rule begins_guarded)
    (auto intro!: emits_intros emits_button_loop listed_elements simp: strategy_starts_def)

lemma begins_strategies:
  "i < 7 \<Longrightarrow> begins (strategy_starts ! i) (strategies ! i)"
proof -
  assume "i < 7"
  then consider "i = 0" | "i = 1" | "i = 2" | "i = 3" | "i = 4" | "i = 5" | "i = 6"
    by linarith
  then show ?thesis
  proof cases
    case 1
    with begins_strategy1 show ?thesis by (simp add: strategies_def)
  next
    case 2
    then show ?thesis
      using begins_visible_strategy [of deposit_exact]
      by (simp add: strategies_def strategy2_def strategy_starts_def)
  next
    case 3
    then show ?thesis
      using begins_visible_strategy [of deposit_inexact]
      by (simp add: strategies_def strategy3_def strategy_starts_def)
  next
    case 4
    then show ?thesis
      using begins_visible_strategy [of deposit_text]
      by (simp add: strategies_def strategy4_def strategy_starts_def)
  next
    case 5
    with begins_strategy5 show ?thesis by (simp add: strategies_def)
  next
    case 6
    then show ?thesis
      using begins_visible_strategy [of deposit_aria]
      by (simp add: strategies_def strategy6_def strategy_starts_def)
  next
    case 7
    then show ?thesis
      using begins_visible_strategy [of deposit_data]
      by (simp add: strategies_def strategy7_def strategy_starts_def)
  qed
qed

text \<open>The statements of a list that all complete, one after the other.\<close>

lemma fallen_through:
  assumes "block (map (\<lambda>i. strategies ! i) [j..<k]) s = (Norm (), s1)" "k \<le> 7" "page s"
  shows "\<exists>es. s1 = s\<lparr>trace := trace s @ es\<rparr> \<and> started es = map (\<lambda>i. strategy_starts ! i) [j..<k]"
  using assms
proof (induction "k - j" arbitrary: j s)
  case 0
  then show ?case
    by (intro exI [of _ "[]"]) (simp add: pure_def)
next
  case (Suc n)
  then have jk: "j < k" and n: "n = k - Suc j" by simp_all
  then have upt: "[j..<k] = j # [Suc j..<k]" by (simp add: upt_conv_Cons)
  obtain r s' where 1: "(strategies ! j) s = (r, s')" by (cases "(strategies ! j) s")
  with Suc.prems(1) upt have r: "r = Norm ()" and 2: "block (map (\<lambda>i. strategies ! i) [Suc j..<k]) s' = (Norm (), s1)"
    by (auto simp: bind_def split: flow.splits)
  from jk Suc.prems(2) have "j < 7" by simp
  from begins_strategies [OF this] Suc.prems(3) 1 obtain e es where
    s': "s' = s\<lparr>trace := trace s @ e # es\<rparr>" "start_of e = [strategy_starts ! j]" "list_all inner es"
    unfolding begins_def by blast
  then have "page s'" using Suc.prems(3) by simp
  from Suc.hyps(1) [OF n 2 Suc.prems(2) this] obtain es' where
    "s1 = s'\<lparr>trace := trace s' @ es'\<rparr>" "started es' = map (\<lambda>i. strategy_starts ! i) [Suc j..<k]"
    by blast
  with s' upt show ?case
    by (intro exI [of _ "e # es @ es'"]) (simp add: started_inner)
qed



lemma block_after_raise: "block (ms @ raise e # rest) = block (ms @ [raise e])"
proof -
  have "block (raise e # rest) = block [raise e]"
    by (rule ext) (simp add: bind_def raise_def)
  then show ?thesis by (simp add: block_append)
qed

lemma fill_receipt_form_cut:
  "fill_receipt_form d =
     call (block (before_strategies d @ strategies
                  @ [shot ''deposit-button-not-found'', raise (Exception not_found)]))"
  using block_after_raise [of "before_strategies d @ strategies @ [shot ''deposit-button-not-found'']"
      "Exception not_found" "after_raise d"]
  by (simp add: fill_receipt_form_def)


lemma calm_button_world: "calm button_world"
  by (simp add: calm_def button_world_def quiet_world_def)

lemma world_open_session [simp]: "world (open_session w tm) = w"
  by (simp add: open_session_def new_session_def)

lemmas statement_defs =
  pure_def raise_def ret_def bind_def discard_def try_except_def try_bare_def try_interrupt_def
  try_finally_def call_def print_def perform_def answer_def sleep_def on_page_def log_def

lemmas screenshot_defs = shot_def take_screenshot_def screenshot_file_def

lemma no_return_pure: "no_return (pure a)"
  by (simp add: no_return_def pure_def)

lemma no_return_raise: "no_return (raise e)"
  by (simp add: no_return_def raise_def)

lemma no_return_print: "no_return (print msg)"
  by (simp add: no_return_def print_def)

lemma no_return_perform: "no_return (perform a)"
  by (simp add: no_return_def perform_def split: option.splits)

lemma no_return_sleep: "no_return (sleep n)"
  by (simp add: sleep_def no_return_perform)

lemma no_return_answer: "no_return (answer oracle a)"
  by (simp add: no_return_def answer_def split: sum.splits)

lemma no_return_bind: "no_return m \<Longrightarrow> (\<And>a. no_return (f a)) \<Longrightarrow> no_return (bind m f)"
  unfolding no_return_def bind_def
  by (auto split: prod.splits flow.splits) (metis fst_conv)+

lemma no_return_discard: "no_return m \<Longrightarrow> no_return (discard m)"
  unfolding discard_def by (intro no_return_bind no_return_pure)

lemma no_return_block: "list_all no_return ms \<Longrightarrow> no_return (block ms)"
  by (induction ms) (auto intro: no_return_pure no_return_bind)

lemma no_return_try_except:
  "no_return m \<Longrightarrow> (\<And>e. no_return (h e)) \<Longrightarrow> no_return (try_except m h)"
  unfolding no_return_def try_except_def
  by (auto split: prod.splits flow.splits exn.splits) (metis fst_conv)+

lemma no_return_try_bare: "no_return m \<Longrightarrow> no_return h \<Longrightarrow> no_return (try_bare m h)"
  unfolding no_return_def try_bare_def
  by (auto split: prod.splits flow.splits) (metis fst_conv)+

lemma no_return_try_interrupt: "no_return m \<Longrightarrow> no_return h \<Longrightarrow> no_return (try_interrupt m h)"
  unfolding no_return_def try_interrupt_def
  by (auto split: prod.splits flow.splits exn.splits) (metis fst_conv)+

lemma no_return_try_finally: "no_return m \<Longrightarrow> no_return f \<Longrightarrow> no_return (try_finally m f)"
  unfolding no_return_def try_finally_def
  by (auto split: prod.splits flow.splits) (metis fst_conv)+

lemma no_return_call: "no_return (call m)"
  by (simp add: no_return_def call_def split: prod.splits flow.splits)

lemma no_return_on_page: "no_return m \<Longrightarrow> no_return (on_page attr m)"
  by (simp add: no_return_def on_page_def)


lemma no_return_if: "no_return m \<Longrightarrow> no_return n \<Longrightarrow> no_return (if b then m else n)"
  by simp

lemmas no_return_intros =
  no_return_pure no_return_raise no_return_print no_return_perform no_return_sleep
  no_return_answer no_return_bind no_return_discard no_return_try_except no_return_try_bare
  no_return_try_interrupt no_return_try_finally no_return_call no_return_on_page no_return_if



lemma catches_pure: "catches (pure a)"
  by (simp add: catches_def pure_def)

lemma catches_print: "catches (print msg)"
  by (simp add: catches_def print_def)

lemma catches_bind: "catches m \<Longrightarrow> (\<And>a. catches (f a)) \<Longrightarrow> catches (bind m f)"
  unfolding catches_def bind_def
  by (auto split: prod.splits flow.splits) (metis fst_conv)+

lemma catches_block: "list_all catches ms \<Longrightarrow> catches (block ms)"
  by (induction ms) (auto intro: catches_pure catches_bind)

lemma catches_try_except: "(\<And>e. catches (h e)) \<Longrightarrow> catches (try_except m h)"
  unfolding catches_def try_except_def
  by (auto split: prod.splits flow.splits exn.splits)

lemma catches_if: "catches m \<Longrightarrow> catches n \<Longrightarrow> catches (if b then m else n)"
  by simp

lemmas catches_intros =
  catches_pure catches_print catches_bind catches_try_except catches_if

lemma no_return_unawaited_all: "no_return unawaited_all"
  unfolding unawaited_all_def by (intro no_return_intros)

lemma field_blocks_catch:
  "catches (fill_date d)" "catches (fill_received_from d)" "catches (fill_reason d)"
  "catches (fill_amount d)"
  unfolding fill_date_def fill_received_from_def fill_reason_def fill_amount_def
  by (auto intro!: catches_intros catches_block)

lemma field_blocks_no_return:
  "no_return (fill_date d)" "no_return (fill_received_from d)" "no_return (fill_reason d)"
  "no_return (fill_amount d)"
  unfolding fill_date_def fill_received_from_def fill_reason_def fill_amount_def
  by (auto intro!: no_return_intros no_return_block no_return_unawaited_all)

lemma skipped_or_interrupted:
  assumes "catches m" "no_return m"
  shows "fst (m s) = Norm () \<or> fst (m s) = Raise Interrupt"
proof (cases "fst (m s)")
  case (Raise e)
  with assms(1) show ?thesis by (cases e) (auto simp: catches_def)
next
  case Return
  with assms(2) show ?thesis by (simp add: no_return_def)
qed simp



lemmas locator_defs =
  create_new_button_def menu_deposit_def menu_items_def deposit_exact_def deposit_inexact_def
  deposit_text_def all_buttons_def deposit_aria_def deposit_data_def

lemmas strategy_defs =
  strategies_def strategy1_def strategy2_def strategy3_def strategy4_def strategy5_def
  strategy6_def strategy7_def visible_strategy_def click_and_return_def elements_def

lemma open_session_simps [simp]:
  "page (open_session w tm)" "browser (open_session w tm)"
  "trace (open_session w tm) = []" "test_mode (open_session w tm) = tm"
  by (simp_all add: open_session_def new_session_def)

lemma take_strategies: "k \<le> 7 \<Longrightarrow> take k strategies = map (\<lambda>i. strategies ! i) [0..<k]"
proof -
  assume "k \<le> 7"
  have "length strategies = 7" by (simp add: strategies_def)
  with \<open>k \<le> 7\<close> have "take k (map (\<lambda>i. strategies ! i) [0..<length strategies])
      = map (\<lambda>i. strategies ! i) [0..<k]"
    by (simp add: take_map)
  then show ?thesis by (simp add: map_nth)
qed

lemma take_strategy_starts:
  "k \<le> 7 \<Longrightarrow> take k strategy_starts = map (\<lambda>i. strategy_starts ! i) [0..<k]"
proof -
  assume "k \<le> 7"
  have "length strategy_starts = 7" by (simp add: strategy_starts_def)
  with \<open>k \<le> 7\<close> have "take k (map (\<lambda>i. strategy_starts ! i) [0..<length strategy_starts])
      = map (\<lambda>i. strategy_starts ! i) [0..<k]"
    by (simp add: take_map)
  then show ?thesis by (simp add: map_nth)
qed

lemmas eval_defs =
  statement_defs screenshot_defs strategy_defs before_strategies_def button_world_def
  quiet_world_def

lemma button_front:
  "block (before_strategies (receipt_of default_args) @ take 1 strategies)
     (open_session button_world True)
   = (Norm (), (open_session button_world True)\<lparr>trace := button_trace\<rparr>)"
  by (simp add: eval_defs button_trace_def locator_defs)

lemma button_hit:
  "(strategies ! 1) ((open_session button_world True)\<lparr>trace := button_trace\<rparr>)
   = (Return, (open_session button_world True)\<lparr>trace := button_trace @ button_clicked\<rparr>)"
  by (simp add: eval_defs button_clicked_def)

lemma emits_front: "emits early (block (before_strategies d @ strategies))"
  by (intro emits_block)
    (simp add: emits_strategies list.pred_mono_strong [OF emits_before_strategies] emits_early)

lemma exhausted_raises:
  assumes calm: "calm (world s)"
    and front: "fst (block (before_strategies d @ strategies) s) = Norm ()"
  shows "fst (fill_receipt_form d s) = Raise (Exception not_found)"
proof -
  let ?front = "block (before_strategies d @ strategies)"
  obtain s1 where 1: "?front s = (Norm (), s1)"
    using front by (cases "?front s") simp
  with emits_front obtain es where "s1 = s\<lparr>trace := trace s @ es\<rparr>"
    by (rule emitsD)
  with calm have "calm (world s1)" by simp
  from shot_calm [OF this, of "''deposit-button-not-found''"] obtain es' where
    2: "shot ''deposit-button-not-found'' s1 = (Norm (), s1\<lparr>trace := trace s1 @ es'\<rparr>)"
    by blast
  have "block (before_strategies d @ strategies
               @ [shot ''deposit-button-not-found'', raise (Exception not_found)]) s
      = (Raise (Exception not_found), s1\<lparr>trace := trace s1 @ es'\<rparr>)"
    using block_append [of "before_strategies d @ strategies"
        "[shot ''deposit-button-not-found'', raise (Exception not_found)]"] 1 2
    by (simp add: bind_def raise_def)
  then show ?thesis
    by (simp add: fill_receipt_form_cut call_def)
qed


lemma show_nat_0: "show_nat 0 = ''0''"
  by (simp add: show_nat.simps digit_char_def)

lemma quiet_front:
  "fst (block (before_strategies (receipt_of default_args) @ strategies)
         (open_session quiet_world True)) = Norm ()"
  by (simp add: eval_defs locator_defs show_nat_0)

lemmas login_defs =
  initialize_def set_browser_def set_page_def login_def find_email_input_def
  after_login_click_def two_factor_def get_code_def automatic_code_def
  navigate_to_matter_transactions_def new_session_def



lemma extends_trace:
  assumes "emits anything k" "m s = k (s\<lparr>trace := trace s @ es\<rparr>)"
  shows "\<exists>rest. trace (snd (m s)) = trace s @ es @ rest"
proof -
  let ?s1 = "s\<lparr>trace := trace s @ es\<rparr>"
  obtain r s' where "k ?s1 = (r, s')" by (cases "k ?s1")
  with assms(1) obtain es' where "s' = ?s1\<lparr>trace := trace ?s1 @ es'\<rparr>"
    by (rule emitsD)
  with assms(2) \<open>k ?s1 = (r, s')\<close> show ?thesis by simp
qed

lemma try_except_norm:
  "m s = (Norm a, s1) \<Longrightarrow> try_except (bind m f) h s = try_except (f a) h s1"
  by (simp add: try_except_def bind_def)

lemma try_except_raise:
  "m s = (Raise e, s1) \<Longrightarrow> try_except (bind m f) h s = try_except (raise e) h s1"
  by (simp add: try_except_def bind_def raise_def)

lemma bind_assoc: "bind (bind m f) g = bind m (\<lambda>a. bind (f a) g)"
  by (rule ext) (simp add: bind_def split: prod.splits flow.splits)

lemma block_single_cong: "m s = n t \<Longrightarrow> block [m] s = block [n] t"
  by (simp add: bind_def)

lemma automatic_code_trace [simp]: "automatic_code (s\<lparr>trace := t\<rparr>) = automatic_code s"
  by (simp add: automatic_code_def)








lemmas script_defs =
  script_def main_def import_lines_def init_def banner_def report_def receipt_of_def
  default_args_def run_def run_steps_def succeeded_def failed_def pause_before_close_def
  cleanup_def


lemma added_extended [simp]: "added s (s\<lparr>trace := trace s @ es\<rparr>) = es"
  by (simp add: added_def)

lemma settled_take: "settled (block (before_strategies d @ take k strategies))"
proof -
  from settled_strategies have "list_all settled (take k strategies)"
    by (auto simp: list_all_iff dest: in_set_takeD)
  then show ?thesis
    by (intro settled_block) (simp add: settled_before_strategies)
qed

lemma settled_nth: "k < 7 \<Longrightarrow> settled (strategies ! k)"
  using settled_strategies by (simp add: list_all_length strategies_def)

lemma quiet_button_trace: "quiet button_trace"
  by (simp add: button_trace_def locator_defs)

lemma loud_button_clicked: "\<not> quiet button_clicked"
  by (simp add: button_clicked_def)









section \<open>Credentials at startup\<close>

text \<open>
  C3, as the spec states it: without the username or password key in the environment the
  startup fails. The constructor gives \<^verbatim>\<open>os.getenv\<close> a default for both keys, so with an
  empty environment it completes and the session holds the built-in username and password.
\<close>

theorem C3_missing_credentials_counterexample:
  "Map.empty ''SMOKEBALL_USERNAME'' = (None :: string option)
   \<and> fst (init quiet_world Map.empty True []) = Norm ()
   \<and> username (creds (snd (init quiet_world Map.empty True []))) = default_username
   \<and> password (creds (snd (init quiet_world Map.empty True []))) = default_password"
  by (simp add: init_def new_session_def perform_def quiet_world_def log_def getenv_def)

text \<open>
  C3, amended: the constructor never raises a configuration error. It fails only when the
  creation of the screenshots directory fails, and the session it builds holds, for the
  username and for the password, the value of the environment when the key is present and
  the built-in default when it is not; the one-time-password secret is the value of its
  key, or absent.
\<close>

theorem C3_credentials_default_to_builtin:
  "fst (init w env tm tr) =
     (case effect w tr (Mkdir ''screenshots'') of None \<Rightarrow> Norm () | Some e \<Rightarrow> Raise e)
   \<and> username (creds (snd (init w env tm tr))) =
       (case env ''SMOKEBALL_USERNAME'' of None \<Rightarrow> default_username | Some u \<Rightarrow> u)
   \<and> password (creds (snd (init w env tm tr))) =
       (case env ''SMOKEBALL_PASSWORD'' of None \<Rightarrow> default_password | Some p \<Rightarrow> p)
   \<and> two_factor_secret (creds (snd (init w env tm tr))) = env ''SMOKEBALL_2FA_SECRET''"
  by (simp add: init_def new_session_def perform_def log_def getenv_def split: option.splits)

section \<open>One-time-password generation\<close>

lemma six_digits_shape: "length (six_digits n) = 6 \<and> list_all is_digit (six_digits n)"
proof -
  have d: "is_digit (digit_char m)" for m
    unfolding is_digit_def digit_char_def by (rule nth_mem) simp
  show ?thesis by (simp add: six_digits_def d)
qed

text \<open>
  C4, as the spec states it: every valid secret gives a six-digit code. The method also
  requires the library to be importable; without it the valid secret
  \<^verbatim>\<open>JBSWY3DPEHPK3PXP\<close> raises the \<^verbatim>\<open>ValueError\<close> of the guard.
\<close>

theorem C4_valid_secret_counterexample:
  "valid_secret ''JBSWY3DPEHPK3PXP''
   \<and> fst (generate_totp_code
         (new_session (quiet_world\<lparr>pyotp_installed := False\<rparr>) secret_env True []))
       = Raise (Exception not_configured)"
  by (simp add: valid_secret_def base32_char_def generate_totp_code_def new_session_def
      secret_env_def quiet_world_def raise_def)

text \<open>
  C4, amended: when the one-time-password library is importable, for every valid
  non-empty base32 secret \<open>generate_totp_code\<close> returns a string of six decimal digits, and
  any call with the same secret whose current time falls in the same 30-second window
  returns the same code.
\<close>

theorem C4_six_digits_same_window:
  assumes "pyotp_installed (world s)"
    and "two_factor_secret (creds s) = Some k"
    and "valid_secret k"
  shows "\<exists>code. fst (generate_totp_code s) = Norm code
           \<and> length code = 6 \<and> list_all is_digit code
           \<and> (\<forall>s'. two_factor_secret (creds s') = Some k
                    \<and> pyotp_installed (world s')
                    \<and> digest (world s') = digest (world s)
                    \<and> clock (world s') (trace s') div 30 = clock (world s) (trace s) div 30
                  \<longrightarrow> fst (generate_totp_code s') = Norm code)"
proof -
  from assms(3) have ne: "k \<noteq> []" by (simp add: valid_secret_def)
  let ?code = "six_digits (digest (world s) k (clock (world s) (trace s) div 30) mod 1000000)"
  have "fst (generate_totp_code s) = Norm ?code"
    using assms ne by (simp add: generate_totp_code_def totp_now_def bind_def print_def pure_def)
  moreover have "length ?code = 6 \<and> list_all is_digit ?code"
    by (rule six_digits_shape)
  moreover have "fst (generate_totp_code s') = Norm ?code"
    if "two_factor_secret (creds s') = Some k" "pyotp_installed (world s')"
      "digest (world s') = digest (world s)"
      "clock (world s') (trace s') div 30 = clock (world s) (trace s) div 30" for s'
    using that assms(3) ne
    by (simp add: generate_totp_code_def totp_now_def bind_def print_def pure_def)
  ultimately show ?thesis by blast
qed

theorem C4_six_digits_same_window_witness:
  "fst (generate_totp_code (new_session quiet_world secret_env True [])) = Norm ''000000''
   \<and> fst (generate_totp_code
         (new_session (quiet_world\<lparr>clock := (\<lambda>h. 29)\<rparr>) secret_env False [Print ''x'']))
       = Norm ''000000''"
proof -
  let ?s = "new_session quiet_world secret_env True []"
  let ?s' = "new_session (quiet_world\<lparr>clock := (\<lambda>h. 29)\<rparr>) secret_env False [Print ''x'']"
  have v: "valid_secret ''JBSWY3DPEHPK3PXP''"
    by (simp add: valid_secret_def base32_char_def)
  have a: "pyotp_installed (world ?s)"
    by (simp add: new_session_def quiet_world_def)
  have b: "two_factor_secret (creds ?s) = Some ''JBSWY3DPEHPK3PXP''"
    by (simp add: new_session_def secret_env_def)
  have here: "fst (generate_totp_code ?s) = Norm ''000000''"
    using v by (simp add: generate_totp_code_def new_session_def secret_env_def quiet_world_def
        totp_now_def six_digits_def digit_char_def bind_def print_def pure_def)
  have same: "two_factor_secret (creds ?s') = Some ''JBSWY3DPEHPK3PXP''
      \<and> pyotp_installed (world ?s') \<and> digest (world ?s') = digest (world ?s)
      \<and> clock (world ?s') (trace ?s') div 30 = clock (world ?s) (trace ?s) div 30"
    by (simp add: new_session_def secret_env_def quiet_world_def)
  from C4_six_digits_same_window [OF a b v] obtain code where
    c: "fst (generate_totp_code ?s) = Norm code"
    and w: "\<forall>s'. two_factor_secret (creds s') = Some ''JBSWY3DPEHPK3PXP''
                    \<and> pyotp_installed (world s')
                    \<and> digest (world s') = digest (world ?s)
                    \<and> clock (world s') (trace s') div 30 = clock (world ?s) (trace ?s) div 30
                  \<longrightarrow> fst (generate_totp_code s') = Norm code"
    by blast
  from c here have "code = ''000000''" by simp
  with w same here show ?thesis by blast
qed

text \<open>
  C5, as the spec states it: every malformed secret fails with \<^verbatim>\<open>InvalidSecret\<close>. With
  the empty secret the guard of \<open>generate_totp_code\<close> raises first, and the error is the
  \<^verbatim>\<open>ValueError\<close> of line 61, whose text is another.
\<close>

theorem C5_empty_secret_counterexample:
  "generate_totp_code (secret_session [])
     = (Raise (Exception ''2FA secret not configured or pyotp not installed''), secret_session [])
   \<and> ''2FA secret not configured or pyotp not installed'' \<noteq> ''InvalidSecret''"
  by (simp add: generate_totp_code_def secret_session_def new_session_def raise_def
      not_configured_def)

text \<open>
  C5, amended: for every malformed secret (empty, or not base32) \<open>generate_totp_code\<close>
  raises an exception and leaves the session as it was: nothing is printed and nothing
  reaches the browser, the console or the network. The empty secret, and any secret when
  the library could not be imported, raises the \<^verbatim>\<open>ValueError\<close> of the guard, with the
  text \<^verbatim>\<open>2FA secret not configured or pyotp not installed\<close>; any other malformed secret
  raises the \<^verbatim>\<open>InvalidSecret\<close> of the library.
\<close>

theorem C5_malformed_secret_fails_without_effect:
  assumes "two_factor_secret (creds s) = Some k"
    and "\<not> valid_secret k"
  shows "generate_totp_code s
           = (Raise (Exception (if k = [] \<or> \<not> pyotp_installed (world s)
                                then ''2FA secret not configured or pyotp not installed''
                                else ''InvalidSecret'')), s)"
  using assms by (simp add: generate_totp_code_def totp_now_def raise_def not_configured_def)

text \<open>A session whose secret holds a space and an exclamation mark.\<close>

theorem C5_malformed_secret_fails_without_effect_witness:
  "\<not> valid_secret ''not base32!''
   \<and> generate_totp_code (secret_session ''not base32!'')
       = (Raise (Exception ''InvalidSecret''), secret_session ''not base32!'')"
proof -
  let ?s = "secret_session ''not base32!''"
  have a: "two_factor_secret (creds ?s) = Some ''not base32!''"
    by (simp add: secret_session_def new_session_def)
  have b: "\<not> valid_secret ''not base32!''"
    by (simp add: valid_secret_def base32_char_def)
  have c: "pyotp_installed (world ?s)"
    by (simp add: secret_session_def new_session_def quiet_world_def)
  from C5_malformed_secret_fails_without_effect [OF a b] b c show ?thesis by simp
qed

section \<open>The deposit form\<close>




text \<open>
  When the first \<open>k\<close> strategies complete without a return and the next one returns, the
  call returns in the state that strategy left, it is the run of the first \<open>k + 1\<close>
  strategies only, and the strategies it opened are the first \<open>k + 1\<close>, in order.
\<close>

lemma first_return_short_circuits:
  assumes "page s" and "k < 7"
    and "block (before_strategies d @ take k strategies) s = (Norm (), s1)"
    and "(strategies ! k) s1 = (Return, s2)"
  shows "fill_receipt_form d s = (Norm (), s2)
       \<and> fill_receipt_form d s = call (block (before_strategies d @ take (Suc k) strategies)) s
       \<and> (\<exists>es. s2 = s\<lparr>trace := trace s @ es\<rparr> \<and> started es = take (Suc k) strategy_starts)
       \<and> distinct strategy_starts"
proof -
  have len: "length strategies = 7" "length strategy_starts = 7"
    by (simp_all add: strategies_def strategy_starts_def)
  from assms(2) len have split: "strategies = take k strategies @ strategies ! k # drop (Suc k) strategies"
    by (simp add: id_take_nth_drop)
  from assms(2) len have tk: "take (Suc k) strategies = take k strategies @ [strategies ! k]"
    by (simp add: take_Suc_conv_app_nth)
  have hit: "block ((before_strategies d @ take k strategies) @ strategies ! k # rest) s
      = (Return, s2)" for rest
    using assms(3,4) by (simp only: block_append) (simp add: bind_def)
  have full: "fill_receipt_form d s = (Norm (), s2)"
  proof -
    let ?tail = "[shot ''deposit-button-not-found'', raise (Exception not_found)] @ after_raise d"
    have "before_strategies d @ strategies @ ?tail
        = (before_strategies d @ take k strategies)
          @ strategies ! k # (drop (Suc k) strategies @ ?tail)"
      using split by (metis append.assoc append_Cons)
    then have "block (before_strategies d @ strategies @ ?tail) s = (Return, s2)"
      by (simp only: hit)
    then show ?thesis by (simp add: fill_receipt_form_def call_def)
  qed
  have short: "call (block (before_strategies d @ take (Suc k) strategies)) s = (Norm (), s2)"
  proof -
    have "before_strategies d @ take (Suc k) strategies
        = (before_strategies d @ take k strategies) @ strategies ! k # []"
      using tk by simp
    then have "block (before_strategies d @ take (Suc k) strategies) s = (Return, s2)"
      by (simp only: hit)
    then show ?thesis by (simp add: call_def)
  qed
  obtain r0 s0 where 0: "block (before_strategies d) s = (r0, s0)"
    by (cases "block (before_strategies d) s")
  with assms(3) have r0: "r0 = Norm ()"
    and 1: "block (take k strategies) s0 = (Norm (), s1)"
    by (auto simp: block_append bind_def split: flow.splits)
  from emits_block [OF emits_before_strategies] 0 obtain es0 where
    es0: "s0 = s\<lparr>trace := trace s @ es0\<rparr>" "list_all inner es0"
    by (rule emitsD)
  with assms(1) have "page s0" by simp
  with fallen_through [of 0 k s0 s1] 1 assms(2) obtain es1 where
    es1: "s1 = s0\<lparr>trace := trace s0 @ es1\<rparr>"
      "started es1 = map (\<lambda>i. strategy_starts ! i) [0..<k]"
    by (auto simp: take_strategies)
  with \<open>page s0\<close> have "page s1" by simp
  with begins_strategies [OF assms(2)] assms(4) obtain e es2 where
    es2: "s2 = s1\<lparr>trace := trace s1 @ e # es2\<rparr>" "start_of e = [strategy_starts ! k]"
      "list_all inner es2"
    unfolding begins_def by blast
  have "s2 = s\<lparr>trace := trace s @ (es0 @ es1 @ e # es2)\<rparr>"
    using es0(1) es1(1) es2(1) by simp
  moreover have "started (es0 @ es1 @ e # es2) = take (Suc k) strategy_starts"
    using es0(2) es1(2) es2(2,3) assms(2) len
    by (simp add: started_inner take_Suc_conv_app_nth take_strategy_starts)
  moreover have "distinct strategy_starts"
    by (simp add: strategy_starts_def locator_defs)
  ultimately show ?thesis using full short by auto
qed

text \<open>
  C6, as the spec states it: the first strategy with a match ends the chain. In a session
  where the first strategy finds the deposit entry of the menu and clicks it, and the sleep
  after the click is interrupted, the bare \<^verbatim>\<open>except\<close> of line 255 swallows the
  interruption and the chain goes on: with nothing else on the page, all seven strategies
  are opened after the successful click, and the call ends with the exception of line 353.
\<close>

theorem C6_lost_match_counterexample:
  "fst (fill_receipt_form (receipt_of default_args) (open_session lost_world True))
     = Raise (Exception not_found)
   \<and> filter deposit_click
       (trace (snd (fill_receipt_form (receipt_of default_args) (open_session lost_world True))))
     = [Did (Click menu_deposit)]
   \<and> started
       (trace (snd (fill_receipt_form (receipt_of default_args) (open_session lost_world True))))
     = strategy_starts"
  by (simp add: eval_defs fill_receipt_form_cut locator_defs swallow_world_def lost_world_def
      show_nat_0 started_def start_of_def strategy_starts_def)

text \<open>
  C6, amended: in the chain of \<open>fill_receipt_form\<close>, on an open page and with no awaited
  call interrupted, let strategy \<open>k + 1\<close> be the first in which a click on a deposit control
  succeeds: nothing the first \<open>k\<close> strategies did is such a click, and something strategy
  \<open>k + 1\<close> did is one. Then \<open>fill_receipt_form\<close> returns in the state that strategy left;
  the call is the run of the statements before the chain and of the first \<open>k + 1\<close>
  strategies only; and the strategies opened, read from what the call did, are exactly the
  first \<open>k + 1\<close> of the seven, in the declared order.
\<close>

theorem C6_first_match_short_circuits:
  assumes "page s" and "calm (world s)" and "k < 7"
    and "block (before_strategies d @ take k strategies) s = (r1, s1)"
    and "quiet (added s s1)"
    and "(strategies ! k) s1 = (r2, s2)"
    and "\<not> quiet (added s1 s2)"
  shows "fill_receipt_form d s = (Norm (), s2)
       \<and> fill_receipt_form d s = call (block (before_strategies d @ take (Suc k) strategies)) s
       \<and> (\<exists>es. s2 = s\<lparr>trace := trace s @ es\<rparr> \<and> started es = take (Suc k) strategy_starts)
       \<and> distinct strategy_starts"
proof -
  from settled_take [of d k] assms(2,4) obtain es where
    s1: "s1 = s\<lparr>trace := trace s @ es\<rparr>"
    and es: "case r1 of Norm a \<Rightarrow> quiet es | Return \<Rightarrow> landed es
             | Raise e \<Rightarrow> quiet es \<and> e \<noteq> Interrupt"
    and nr: "\<forall>e. r1 \<noteq> Raise e"
    unfolding settled_def by (metis tidyD)
  from s1 assms(5) have "quiet es" by simp
  with es nr have r1: "r1 = Norm ()"
    by (cases r1) (auto dest: landed_not_quiet)
  from s1 assms(2) have "calm (world s1)" by simp
  with settled_nth [OF assms(3)] assms(6) obtain es' where
    s2: "s2 = s1\<lparr>trace := trace s1 @ es'\<rparr>"
    and es': "case r2 of Norm a \<Rightarrow> quiet es' | Return \<Rightarrow> landed es'
              | Raise e \<Rightarrow> quiet es' \<and> e \<noteq> Interrupt"
    and nr': "\<forall>e. r2 \<noteq> Raise e"
    unfolding settled_def by (metis tidyD)
  from s2 assms(7) have "\<not> quiet es'" by simp
  with es' nr' have r2: "r2 = Return"
    by (cases r2) auto
  from assms(4) r1 have front: "block (before_strategies d @ take k strategies) s = (Norm (), s1)"
    by simp
  from assms(6) r2 have hit: "(strategies ! k) s1 = (Return, s2)"
    by simp
  from assms(1,3) front hit show ?thesis
    by (rule first_return_short_circuits)
qed

text \<open>The session in which the second strategy finds the button.\<close>

theorem C6_first_match_short_circuits_witness:
  "page (open_session button_world True) \<and> calm (world (open_session button_world True))
   \<and> (1::nat) < 7
   \<and> quiet button_trace \<and> \<not> quiet button_clicked
   \<and> fill_receipt_form (receipt_of default_args) (open_session button_world True)
     = (Norm (), (open_session button_world True)\<lparr>trace := button_trace @ button_clicked\<rparr>)"
proof -
  let ?s = "open_session button_world True"
  let ?s1 = "?s\<lparr>trace := button_trace\<rparr>"
  let ?s2 = "?s\<lparr>trace := button_trace @ button_clicked\<rparr>"
  have page: "page ?s" and calm: "calm (world ?s)"
    by (simp_all add: calm_button_world)
  have q1: "quiet (added ?s ?s1)"
    by (simp add: added_def quiet_button_trace)
  have q2: "\<not> quiet (added ?s1 ?s2)"
    by (simp add: added_def loud_button_clicked)
  from C6_first_match_short_circuits [OF page calm _ button_front q1 button_hit q2]
  have "fill_receipt_form (receipt_of default_args) ?s = (Norm (), ?s2)"
    by simp
  with page calm quiet_button_trace loud_button_clicked show ?thesis by simp
qed

text \<open>
  C1 at the session in which the button named exactly \<^verbatim>\<open>Deposit Funds\<close> is visible and
  every browser call succeeds, with the receipt of the command line defaults: the call
  returns after the click that opens the deposit form. This is everything it did; the
  date, the payer, the reason and the amount are never typed.
\<close>

theorem C1_form_opened_fields_never_filled:
  "fill_receipt_form (receipt_of default_args) (open_session button_world True)
   = (Norm (), (open_session button_world True)\<lparr>trace := button_trace @ button_clicked\<rparr>)
   \<and> filter fills_field (button_trace @ button_clicked) = []"
  by (simp add: eval_defs fill_receipt_form_def button_trace_def button_clicked_def locator_defs)




section \<open>Two-factor login\<close>

text \<open>
  C8, as the spec states it: without a usable secret the login asks for the code on the
  console. With a secret that is configured and is not base32, on a page that is not the
  dashboard, the generation fails, the branch raises \<^verbatim>\<open>2FA failed\<close> with the error of
  the library, and the console is never asked.
\<close>

theorem C8_rejected_secret_counterexample:
  "two_factor_secret (creds (secret_session ''not base32!'')) = Some ''not base32!''
   \<and> \<not> valid_secret ''not base32!''
   \<and> \<not> contains ''dashboard''
         (url (world (secret_session ''not base32!'')) (trace (secret_session ''not base32!'')))
   \<and> fst (after_login_click (secret_session ''not base32!''))
       = Raise (Exception ''2FA failed: InvalidSecret'')
   \<and> filter asks_console (trace (snd (after_login_click (secret_session ''not base32!'')))) = []"
  by (simp add: eval_defs login_defs secret_session_def generate_totp_code_def totp_now_def
      valid_secret_def base32_char_def)

text \<open>
  C8, amended: the branch of \<open>login\<close> for a page that is not the dashboard. When no code can be
  generated (the secret is absent or empty, or the library could not be imported) and the
  field for the code appears, the script announces the manual entry and reads a line from
  the console: the prompt \<^verbatim>\<open>Enter 2FA code: \<close> is the fourth thing the branch does,
  before anything can fail, and the line that was read is what it then types into the
  field.
\<close>

theorem C8_manual_entry_when_no_secret:
  assumes "two_factor_secret (creds s) = None \<or> two_factor_secret (creds s) = Some []
           \<or> \<not> pyotp_installed (world s)"
    and "\<not> contains ''dashboard'' (url (world s) (trace s))"
    and "effect (world s) (trace s @ [Print ''2FA required...''])
           (WaitForSelector two_factor_selector 15000) = None"
  shows "\<exists>r rest.
           trace (snd (after_login_click s))
             = trace s @ [Print ''2FA required...'',
                          Did (WaitForSelector two_factor_selector 15000),
                          Print ''Manual 2FA required - please enter code:'', r] @ rest
         \<and> action_of r = Some (Input ''Enter 2FA code: '')
         \<and> (\<forall>c. r = Did (Input ''Enter 2FA code: '') \<and>
                 line (world s)
                   (trace s @ [Print ''2FA required...'',
                               Did (WaitForSelector two_factor_selector 15000),
                               Print ''Manual 2FA required - please enter code:''])
                   (Input ''Enter 2FA code: '') = Inr c
               \<longrightarrow> (\<exists>f rest'. rest = f # rest' \<and> action_of f = Some (Fill two_factor_input c)))"
proof -
  let ?asked = "[Print ''2FA required...'', Did (WaitForSelector two_factor_selector 15000),
                 Print ''Manual 2FA required - please enter code:'']"
  let ?prompt = "Input ''Enter 2FA code: ''"
  let ?H = "\<lambda>e. block [shot ''2fa-error'', raise (Exception (''2FA failed: '' @ e))]"
  let ?after = "block [sleep 1000,
      try_bare (perform (Click verify_button)) (perform (Press two_factor_input ''Enter'')),
      perform (WaitForUrl ''**/dashboard'' 45000),
      print ''2FA verification successful'']"
  let ?typed = "\<lambda>c. bind (perform (Fill two_factor_input c)) (\<lambda>_. ?after)"
  let ?s0 = "s\<lparr>trace := trace s @ [Print ''2FA required...'']\<rparr>"
  let ?s1 = "s\<lparr>trace := trace s @ [Print ''2FA required...'',
               Did (WaitForSelector two_factor_selector 15000)]\<rparr>"
  let ?s2 = "s\<lparr>trace := trace s @ ?asked\<rparr>"
  from assms(1) have manual: "\<not> automatic_code s"
    by (auto simp: automatic_code_def)
  have H: "emits anything (?H e)" for e
    unfolding shot_def
    by (intro emits_block) (simp add: emits_intros emits_take_screenshot anything_def)
  have "emits anything (try_except ?after ?H)"
    by (intro emits_try_except emits_block H) (simp add: emits_intros anything_def)
  then have after: "emits anything (block [try_except ?after ?H])"
    by (intro emits_block) simp
  have "emits anything (try_except (raise e) ?H)" for e
    by (intro emits_try_except emits_raise H)
  then have failed: "emits anything (block [try_except (raise e) ?H])" for e
    by (intro emits_block) simp
  have wait: "perform (WaitForSelector two_factor_selector 15000) ?s0 = (Norm (), ?s1)"
    using assms(3) by (simp add: perform_def log_def)
  have ask: "get_code ?s1 = answer line ?prompt ?s2"
    using manual by (simp add: get_code_def bind_def print_def log_def)
  have start: "after_login_click s
      = block [try_except (bind get_code ?typed) ?H] ?s1"
  proof -
    have "try_except
            (block [perform (WaitForSelector two_factor_selector 15000),
                    bind get_code (\<lambda>totp_code. perform (Fill two_factor_input totp_code)),
                    sleep 1000,
                    try_bare (perform (Click verify_button))
                      (perform (Press two_factor_input ''Enter'')),
                    perform (WaitForUrl ''**/dashboard'' 45000),
                    print ''2FA verification successful'']) ?H ?s0
        = try_except (bind get_code ?typed) ?H ?s1"
      using try_except_norm [where m = "perform (WaitForSelector two_factor_selector 15000)"
          and s = ?s0, OF wait]
      by (simp add: bind_assoc)
    then have "two_factor s = block [try_except (bind get_code ?typed) ?H] ?s1"
      unfolding two_factor_def
      by (simp add: bind_def print_def log_def)
    with assms(2) show ?thesis by (simp add: after_login_click_def)
  qed
  show ?thesis
  proof (cases "line (world s) (trace s @ ?asked) ?prompt")
    case (Inl e)
    let ?s3 = "s\<lparr>trace := trace s @ ?asked @ [Failed ?prompt e]\<rparr>"
    from Inl have "get_code ?s1 = (Raise e, ?s3)"
      by (simp add: ask answer_def log_def)
    then have "block [try_except (bind get_code ?typed) ?H] ?s1
        = block [try_except (raise e) ?H] ?s3"
      by (intro block_single_cong try_except_raise)
    with start have "after_login_click s = block [try_except (raise e) ?H] ?s3"
      by (rule trans)
    from extends_trace [where m = after_login_click and s = s, OF failed this] obtain rest where
      "trace (snd (after_login_click s)) = trace s @ (?asked @ [Failed ?prompt e]) @ rest"
      by auto
    then show ?thesis
      by (intro exI [of _ "Failed ?prompt e"] exI [of _ rest]) simp
  next
    case (Inr c)
    let ?s3 = "s\<lparr>trace := trace s @ ?asked @ [Did ?prompt]\<rparr>"
    from Inr have "get_code ?s1 = (Norm c, ?s3)"
      by (simp add: ask answer_def log_def)
    then have "block [try_except (bind get_code ?typed) ?H] ?s1
        = block [try_except (?typed c) ?H] ?s3"
      by (intro block_single_cong try_except_norm [where f = ?typed])
    with start have typed: "after_login_click s = block [try_except (?typed c) ?H] ?s3"
      by (rule trans)
    show ?thesis
    proof (cases "effect (world s) (trace s @ ?asked @ [Did ?prompt]) (Fill two_factor_input c)")
      case None
      let ?s4 = "s\<lparr>trace := trace s @ ?asked @ [Did ?prompt, Did (Fill two_factor_input c)]\<rparr>"
      from None have "perform (Fill two_factor_input c) ?s3 = (Norm (), ?s4)"
        by (simp add: perform_def log_def)
      then have "block [try_except (?typed c) ?H] ?s3 = block [try_except ?after ?H] ?s4"
        by (intro block_single_cong try_except_norm [where f = "\<lambda>_. ?after"])
      with typed have "after_login_click s = block [try_except ?after ?H] ?s4"
        by (rule trans)
      from extends_trace [where m = after_login_click and s = s, OF after this] obtain rest where
        "trace (snd (after_login_click s))
           = trace s @ (?asked @ [Did ?prompt, Did (Fill two_factor_input c)]) @ rest"
        by auto
      with Inr show ?thesis
        by (intro exI [of _ "Did ?prompt"] exI [of _ "Did (Fill two_factor_input c) # rest"]) simp
    next
      case (Some e)
      let ?s4 = "s\<lparr>trace := trace s @ ?asked @ [Did ?prompt, Failed (Fill two_factor_input c) e]\<rparr>"
      from Some have "perform (Fill two_factor_input c) ?s3 = (Raise e, ?s4)"
        by (simp add: perform_def log_def)
      then have "block [try_except (?typed c) ?H] ?s3 = block [try_except (raise e) ?H] ?s4"
        by (intro block_single_cong try_except_raise)
      with typed have "after_login_click s = block [try_except (raise e) ?H] ?s4"
        by (rule trans)
      from extends_trace [where m = after_login_click and s = s, OF failed this] obtain rest where
        "trace (snd (after_login_click s))
           = trace s @ (?asked @ [Did ?prompt, Failed (Fill two_factor_input c) e]) @ rest"
        by auto
      with Inr show ?thesis
        by (intro exI [of _ "Did ?prompt"] exI [of _ "Failed (Fill two_factor_input c) e # rest"])
          simp
    qed
  qed
qed

text \<open>
  The session with no secret in the environment, on a page whose address is empty and on
  which every browser call succeeds.
\<close>

theorem C8_manual_entry_when_no_secret_witness:
  "two_factor_secret (creds (open_session quiet_world True)) = None
   \<and> \<not> contains ''dashboard''
         (url (world (open_session quiet_world True)) (trace (open_session quiet_world True)))
   \<and> (\<exists>r rest.
         trace (snd (after_login_click (open_session quiet_world True)))
           = [Print ''2FA required...'', Did (WaitForSelector two_factor_selector 15000),
              Print ''Manual 2FA required - please enter code:'', r] @ rest
       \<and> action_of r = Some (Input ''Enter 2FA code: ''))"
proof -
  let ?s = "open_session quiet_world True"
  have 1: "two_factor_secret (creds ?s) = None \<or> two_factor_secret (creds ?s) = Some []
      \<or> \<not> pyotp_installed (world ?s)"
    by (simp add: open_session_def new_session_def)
  have 2: "\<not> contains ''dashboard'' (url (world ?s) (trace ?s))"
    by (simp add: quiet_world_def)
  have 3: "effect (world ?s) (trace ?s @ [Print ''2FA required...''])
      (WaitForSelector two_factor_selector 15000) = None"
    by (simp add: quiet_world_def)
  from C8_manual_entry_when_no_secret [OF 1 2 3] obtain r rest where
    "trace (snd (after_login_click ?s))
       = trace ?s @ [Print ''2FA required...'', Did (WaitForSelector two_factor_selector 15000),
                     Print ''Manual 2FA required - please enter code:'', r] @ rest"
    "action_of r = Some (Input ''Enter 2FA code: '')"
    by (elim exE conjE) (rule that)
  moreover have "two_factor_secret (creds ?s) = None"
    by (simp add: open_session_def new_session_def)
  ultimately show ?thesis using 2 by auto
qed

section \<open>The end of a run\<close>




text \<open>
  C10 at a run with \<^verbatim>\<open>--submit\<close> in which every step succeeds and the interruption
  arrives during the five-second pause that the \<^verbatim>\<open>finally\<close> block of \<open>run\<close> makes
  before \<open>cleanup\<close>: the browser was launched, the process exits with code 1, and
  \<^verbatim>\<open>browser.close()\<close> was never called.
\<close>

theorem C10_interrupted_pause_leaves_browser_open:
  "fst (script pause_interrupted_world Map.empty (Parsed (default_args\<lparr>submit := True\<rparr>))) = 1
   \<and> Did Launch \<in> set (snd (script pause_interrupted_world Map.empty
                                  (Parsed (default_args\<lparr>submit := True\<rparr>))))
   \<and> filter close_attempt (snd (script pause_interrupted_world Map.empty
                                   (Parsed (default_args\<lparr>submit := True\<rparr>)))) = []"
  by (simp add: script_defs eval_defs login_defs locator_defs fill_receipt_form_cut
      pause_interrupted_world_def)

end
